theory Spec2Isabelle
  imports Complex_Main
begin

section \<open>JavaScript values\<close>

text \<open>
  The handlers of \<^verbatim>\<open>api/\<close> work on decoded JSON. A decoded value is a \<open>jsval\<close>; an
  object is an association list of its own properties (keys distinct, looked up with
  \<open>map_of\<close>). A property read that yields \<^verbatim>\<open>undefined\<close> is \<open>None\<close>. Strings are
  lists of \<open>char\<close>, one \<open>char\<close> standing for one UTF-16 code unit below 256, so that
  \<open>length\<close> is JavaScript's \<^verbatim>\<open>.length\<close> on such text. Numbers are rationals; the
  non-finite results of \<^verbatim>\<open>Number(...)\<close> are separate constructors of \<open>jsnum\<close>.
\<close>

datatype jsval =
    JNull
  | JBool bool
  | JNum rat
  | JStr string
  | JArr "jsval list"
  | JObj "(string \<times> jsval) list"

datatype jsnum = NaN | PosInf | NegInf | Fin rat

text \<open>\<^verbatim>\<open>v?.k\<close>: the property \<open>k\<close> of \<open>v\<close>, \<open>None\<close> for \<^verbatim>\<open>undefined\<close>. None of the keys the
  handlers read is a built-in property of an array, string, number or boolean.\<close>

fun jget :: "jsval \<Rightarrow> string \<Rightarrow> jsval option" where
  "jget (JObj kvs) k = map_of kvs k"
| "jget _ k = None"

text \<open>\<^verbatim>\<open>a?.k1?.k2\<close>\<close>

definition jget2 :: "jsval \<Rightarrow> string \<Rightarrow> string \<Rightarrow> jsval option" where
  "jget2 v k1 k2 = (case jget v k1 of None \<Rightarrow> None | Some w \<Rightarrow> jget w k2)"

text \<open>JavaScript truthiness of a decoded value.\<close>

fun truthy :: "jsval \<Rightarrow> bool" where
  "truthy JNull = False"
| "truthy (JBool b) = b"
| "truthy (JNum r) = (r \<noteq> 0)"
| "truthy (JStr s) = (s \<noteq> [])"
| "truthy (JArr xs) = True"
| "truthy (JObj kvs) = True"

definition truthy_opt :: "jsval option \<Rightarrow> bool" where
  "truthy_opt v = (case v of None \<Rightarrow> False | Some w \<Rightarrow> truthy w)"

text \<open>\<open>obj_spread base kvs\<close> is \<^verbatim>\<open>{...base, ...kvs}\<close>: a key of \<open>base\<close> keeps its position
  and takes the value \<open>kvs\<close> gives it, if any; the other keys of \<open>kvs\<close> follow. (The
  list keeps the order of insertion; that JavaScript enumerates integer-like keys first
  is not modelled, and no statement below depends on the order of keys.)\<close>

definition obj_spread :: "(string \<times> jsval) list \<Rightarrow> (string \<times> jsval) list \<Rightarrow> (string \<times> jsval) list" where
  "obj_spread base kvs =
     map (\<lambda>(k, v). (k, case map_of kvs k of None \<Rightarrow> v | Some v' \<Rightarrow> v')) base @
     filter (\<lambda>(k, v). map_of base k = None) kvs"

text \<open>A property whose value is \<^verbatim>\<open>undefined\<close> is left out by \<^verbatim>\<open>JSON.stringify\<close>.\<close>

definition opt_field :: "string \<Rightarrow> jsval option \<Rightarrow> (string \<times> jsval) list" where
  "opt_field k v = (case v of None \<Rightarrow> [] | Some w \<Rightarrow> [(k, w)])"

text \<open>A number as \<^verbatim>\<open>JSON.stringify\<close> writes it: \<^verbatim>\<open>NaN\<close> and the infinities become
  \<^verbatim>\<open>null\<close>.\<close>

fun num_json :: "jsnum \<Rightarrow> jsval" where
  "num_json (Fin r) = JNum r"
| "num_json _ = JNull"

text \<open>Decimal digits of a natural number, as a template literal writes an index.\<close>

fun show_nat :: "nat \<Rightarrow> string" where
  "show_nat n =
     (if n < 10 then [char_of (48 + n)]
      else show_nat (n div 10) @ [char_of (48 + n mod 10)])"

declare show_nat.simps [simp del]

text \<open>\<^verbatim>\<open>String.prototype.trim\<close> on code units below 256: the white space and line
  terminators there are U+0009 to U+000D, U+0020 and U+00A0.\<close>

definition is_space :: "char \<Rightarrow> bool" where
  "is_space c = (of_char c \<in> {9, 10, 11, 12, 13, 32, 160 :: nat})"

definition trim :: "string \<Rightarrow> string" where
  "trim s = rev (dropWhile is_space (rev (dropWhile is_space s)))"

section \<open>Shared helpers (\<^verbatim>\<open>api/_utils.ts\<close>)\<close>

definition AUTHOR :: string where
  "AUTHOR = ''@Dafidxcode''"

definition PAXSENIX_BASE_URL :: string where
  "PAXSENIX_BASE_URL = ''https://api.paxsenix.org''"

definition DEFAULT_POLL_INTERVAL_MS :: rat where
  "DEFAULT_POLL_INTERVAL_MS = 5000"

definition DEFAULT_TIMEOUT_MS :: rat where
  "DEFAULT_TIMEOUT_MS = 300000"

definition KIE_FILE_UPLOAD_URL :: string where
  "KIE_FILE_UPLOAD_URL = ''https://kieai.redpandaai.co/api/file-url-upload''"

text \<open>What a handler sends: \<^verbatim>\<open>json(res, status, body)\<close> sets the status code and ends the
  response with the serialised body; \<^verbatim>\<open>res.status(204).end()\<close> sends no body.\<close>

record reply =
  statusCode :: nat
  sent :: "jsval option"

definition json :: "nat \<Rightarrow> jsval \<Rightarrow> reply" where
  "json code b = \<lparr>statusCode = code, sent = Some b\<rparr>"

text \<open>\<^verbatim>\<open>normalizeAuthor\<close>: a value that is falsy or not an object is returned as it is;
  otherwise \<^verbatim>\<open>creator\<close> is dropped and \<^verbatim>\<open>Author\<close> leads the remaining properties (an
  array is an object whose keys are its indices).\<close>

fun normalizeAuthor :: "jsval \<Rightarrow> jsval" where
  "normalizeAuthor (JObj kvs) =
     JObj (obj_spread [(''Author'', JStr AUTHOR)] (filter (\<lambda>(k, v). k \<noteq> ''creator'') kvs))"
| "normalizeAuthor (JArr xs) =
     JObj (obj_spread [(''Author'', JStr AUTHOR)] (zip (map show_nat [0..<length xs]) xs))"
| "normalizeAuthor v = v"

text \<open>The process and the language runtime: the two environment variables, and what
  the handlers take from JavaScript and its libraries: \<^verbatim>\<open>Number(s)\<close> on a string, the
  string conversion of a template literal on a value that is not a string, and whether
  a string is accepted as a URL by the validation library.\<close>

record env =
  PAXSENIX_API_KEY :: "string option"
  KIE_API_KEY :: "string option"
  Number :: "string \<Rightarrow> jsnum"
  String :: "jsval \<Rightarrow> string"
  isUrl :: "string \<Rightarrow> bool"

text \<open>\<^verbatim>\<open>getApiKey\<close> and \<^verbatim>\<open>getKieApiKey\<close> throw when the variable is unset or empty; the
  thrown message is \<open>Inl\<close>.\<close>

definition getApiKey :: "'a env_scheme \<Rightarrow> string + string" where
  "getApiKey e =
     (case PAXSENIX_API_KEY e of
        None \<Rightarrow> Inl ''Missing env PAXSENIX_API_KEY''
      | Some key \<Rightarrow> if key = [] then Inl ''Missing env PAXSENIX_API_KEY'' else Inr key)"

definition getKieApiKey :: "'a env_scheme \<Rightarrow> string + string" where
  "getKieApiKey e =
     (case KIE_API_KEY e of
        None \<Rightarrow> Inl ''Missing env KIE_API_KEY''
      | Some key \<Rightarrow> if key = [] then Inl ''Missing env KIE_API_KEY'' else Inr key)"

text \<open>\<^verbatim>\<open>`${v}`\<close>\<close>

definition template :: "'a env_scheme \<Rightarrow> jsval \<Rightarrow> string" where
  "template e v = (case v of JStr s \<Rightarrow> s | _ \<Rightarrow> String e v)"

section \<open>The inbound request\<close>

text \<open>A query value is a string, or an array of strings when the key is repeated.
  \<^verbatim>\<open>readJsonBody\<close> yields \<^verbatim>\<open>{}\<close> for an empty body and throws on text that is not
  JSON.\<close>

datatype qval = QStr string | QArr "string list"

datatype raw_body = NoBody | BadJson | Json jsval

record request =
  http_method :: string
  query :: "(string \<rightharpoonup> qval) option"
  raw :: raw_body

definition readJsonBody :: "request \<Rightarrow> string + jsval" where
  "readJsonBody req =
     (case raw req of
        NoBody \<Rightarrow> Inr (JObj [])
      | BadJson \<Rightarrow> Inl ''Invalid JSON body''
      | Json v \<Rightarrow> Inr v)"

text \<open>\<^verbatim>\<open>req.query?.k\<close>\<close>

definition qget :: "request \<Rightarrow> string \<Rightarrow> qval option" where
  "qget req k = (case query req of None \<Rightarrow> None | Some q \<Rightarrow> q k)"

text \<open>\<^verbatim>\<open>a ?? b\<close>\<close>

definition nullish :: "'a option \<Rightarrow> 'a option \<Rightarrow> 'a option" where
  "nullish a b = (case a of None \<Rightarrow> b | Some v \<Rightarrow> Some v)"

text \<open>\<^verbatim>\<open>Number(Array.isArray(raw) ? raw[0] : raw)\<close>; \<^verbatim>\<open>Number(undefined)\<close> is \<^verbatim>\<open>NaN\<close>.\<close>

fun NumberOfRaw :: "'a env_scheme \<Rightarrow> qval \<Rightarrow> jsnum" where
  "NumberOfRaw e (QStr s) = Number e s"
| "NumberOfRaw e (QArr []) = NaN"
| "NumberOfRaw e (QArr (s # ss)) = Number e s"

section \<open>Polling parameters (\<^verbatim>\<open>wait.ts\<close>, \<^verbatim>\<open>wait-upload.ts\<close>)\<close>

definition parseTimeoutMs :: "'a env_scheme \<Rightarrow> request \<Rightarrow> rat" where
  "parseTimeoutMs e req =
     (case nullish (qget req ''timeoutMs'') (qget req ''timeout'') of
        None \<Rightarrow> DEFAULT_TIMEOUT_MS
      | Some rw \<Rightarrow>
          (case NumberOfRaw e rw of
             Fin n \<Rightarrow> if n \<le> 0 then DEFAULT_TIMEOUT_MS else min n (15 * 60 * 1000)
           | _ \<Rightarrow> DEFAULT_TIMEOUT_MS))"

definition parsePollIntervalMs :: "'a env_scheme \<Rightarrow> request \<Rightarrow> rat" where
  "parsePollIntervalMs e req =
     (case nullish (qget req ''pollIntervalMs'') (qget req ''poll'') of
        None \<Rightarrow> DEFAULT_POLL_INTERVAL_MS
      | Some rw \<Rightarrow>
          (case NumberOfRaw e rw of
             Fin n \<Rightarrow> if n < 1000 then DEFAULT_POLL_INTERVAL_MS else min n 30000
           | _ \<Rightarrow> DEFAULT_POLL_INTERVAL_MS))"

section \<open>The request schema (\<^verbatim>\<open>index.ts\<close>, \<^verbatim>\<open>wait.ts\<close>, \<^verbatim>\<open>wait-upload.ts\<close>)\<close>

datatype Model = V3_5 | V4 | V4_5 | V4_5PLUS | V5

fun model_name :: "Model \<Rightarrow> string" where
  "model_name V3_5 = ''V3_5''"
| "model_name V4 = ''V4''"
| "model_name V4_5 = ''V4_5''"
| "model_name V4_5PLUS = ''V4_5PLUS''"
| "model_name V5 = ''V5''"

definition Models :: "Model list" where
  "Models = [V3_5, V4, V4_5, V4_5PLUS, V5]"

record GenerationRequest =
  customMode :: bool
  instrumental :: bool
  title :: string
  style :: string
  prompt :: string
  model :: Model
  negativeTags :: string

record UploadRequest = GenerationRequest +
  kieUploadPath :: string
  kieFileName :: string

text \<open>The field schemas of the validation library: a field of the wrong type is
  \<open>None\<close>; \<^verbatim>\<open>.optional().default(d)\<close> reads an absent field as \<open>d\<close>.\<close>

definition z_boolean :: "jsval option \<Rightarrow> bool option" where
  "z_boolean v = (case v of Some (JBool b) \<Rightarrow> Some b | _ \<Rightarrow> None)"

definition z_boolean_default :: "bool \<Rightarrow> jsval option \<Rightarrow> bool option" where
  "z_boolean_default d v = (case v of None \<Rightarrow> Some d | Some (JBool b) \<Rightarrow> Some b | _ \<Rightarrow> None)"

definition z_string_default :: "string \<Rightarrow> jsval option \<Rightarrow> string option" where
  "z_string_default d v = (case v of None \<Rightarrow> Some d | Some (JStr s) \<Rightarrow> Some s | _ \<Rightarrow> None)"

definition z_enum_default :: "Model \<Rightarrow> jsval option \<Rightarrow> Model option" where
  "z_enum_default d v =
     (case v of
        None \<Rightarrow> Some d
      | Some (JStr s) \<Rightarrow> find (\<lambda>m. model_name m = s) Models
      | _ \<Rightarrow> None)"

text \<open>Why a body is refused: fields of the wrong type (their names; none when the body
  is not an object at all), or the messages of the refinement, which runs only on a
  body whose fields all have the right type.\<close>

datatype invalid = TypeIssues "string list" | Refinement "string list"

definition bad_field :: "string \<Rightarrow> 'a option \<Rightarrow> string list" where
  "bad_field k v = (case v of None \<Rightarrow> [k] | Some x \<Rightarrow> [])"

definition z_object :: "jsval \<Rightarrow> string list + GenerationRequest" where
  "z_object b =
     (case b of
        JObj kvs \<Rightarrow>
          (case (z_boolean (jget b ''customMode''),
                 z_boolean_default False (jget b ''instrumental''),
                 z_string_default [] (jget b ''title''),
                 z_string_default [] (jget b ''style''),
                 z_string_default [] (jget b ''prompt''),
                 z_enum_default V5 (jget b ''model''),
                 z_string_default [] (jget b ''negativeTags'')) of
             (Some c, Some i, Some t, Some s, Some p, Some m, Some n) \<Rightarrow>
               Inr \<lparr>customMode = c, instrumental = i, title = t, style = s, prompt = p,
                    model = m, negativeTags = n\<rparr>
           | (c, i, t, s, p, m, n) \<Rightarrow>
               Inl (bad_field ''customMode'' c @ bad_field ''instrumental'' i @
                    bad_field ''title'' t @ bad_field ''style'' s @ bad_field ''prompt'' p @
                    bad_field ''model'' m @ bad_field ''negativeTags'' n))
      | _ \<Rightarrow> Inl [])"

definition z_object_upload :: "jsval \<Rightarrow> string list + UploadRequest" where
  "z_object_upload b =
     (case b of
        JObj kvs \<Rightarrow>
          (case (z_object b,
                 z_string_default ''music/paxsenix'' (jget b ''kieUploadPath''),
                 z_string_default [] (jget b ''kieFileName'')) of
             (Inr v, Some up, Some fn) \<Rightarrow>
               Inr (GenerationRequest.extend v (UploadRequest.fields up fn))
           | (r, up, fn) \<Rightarrow>
               Inl ((case r of Inl bad \<Rightarrow> bad | Inr v \<Rightarrow> []) @
                    bad_field ''kieUploadPath'' up @ bad_field ''kieFileName'' fn))
      | _ \<Rightarrow> Inl [])"

text \<open>The \<^verbatim>\<open>superRefine\<close> of \<^verbatim>\<open>index.ts\<close> and \<^verbatim>\<open>wait.ts\<close>: the messages of the issues it
  adds, in order. The branch for \<^verbatim>\<open>customMode === false\<close> returns after its two
  checks.\<close>

definition superRefine :: "'a GenerationRequest_scheme \<Rightarrow> string list" where
  "superRefine v =
     (if customMode v = False then
        (if trim (prompt v) = [] then [''prompt is required when customMode=false''] else []) @
        (if length (prompt v) > 400
         then [''prompt max length is 400 when customMode=false''] else [])
      else
        (let isV35orV4 = (model v = V3_5 \<or> model v = V4);
             promptLimit = (if isV35orV4 then 3000 else 5000);
             styleLimit = (if isV35orV4 then 200 else 1000)
         in
           (if trim (title v) = [] then [''title is required when customMode=true''] else []) @
           (if trim (style v) = [] then [''style is required when customMode=true''] else []) @
           (if instrumental v = False \<and> trim (prompt v) = []
            then [''prompt is required when customMode=true and instrumental=false'']
            else []) @
           (if length (title v) > 80 then [''title max length is 80''] else []) @
           (if length (prompt v) > promptLimit
            then [''prompt max length is '' @ show_nat promptLimit @ '' for model '' @
                  model_name (model v)]
            else []) @
           (if length (style v) > styleLimit
            then [''style max length is '' @ show_nat styleLimit @ '' for model '' @
                  model_name (model v)]
            else [])))"

text \<open>The \<^verbatim>\<open>superRefine\<close> of \<^verbatim>\<open>wait-upload.ts\<close>: the same checks, and after them, in
  custom mode only, the upload path.\<close>

definition superRefine_upload :: "'a UploadRequest_scheme \<Rightarrow> string list" where
  "superRefine_upload v =
     (if customMode v = False then superRefine v
      else superRefine v @
           (if trim (kieUploadPath v) = [] then [''kieUploadPath is required''] else []))"

definition safeParse :: "jsval \<Rightarrow> invalid + GenerationRequest" where
  "safeParse b =
     (case z_object b of
        Inl bad \<Rightarrow> Inl (TypeIssues bad)
      | Inr v \<Rightarrow> if superRefine v = [] then Inr v else Inl (Refinement (superRefine v)))"

definition safeParse_upload :: "jsval \<Rightarrow> invalid + UploadRequest" where
  "safeParse_upload b =
     (case z_object_upload b of
        Inl bad \<Rightarrow> Inl (TypeIssues bad)
      | Inr v \<Rightarrow>
          if superRefine_upload v = [] then Inr v
          else Inl (Refinement (superRefine_upload v)))"

text \<open>\<^verbatim>\<open>parsed.error.flatten()\<close>: issues without a path are form errors, the others are
  listed under their field. The library's message for a field of the wrong type is
  not modelled; one fixed text stands for it.\<close>

fun flatten :: "invalid \<Rightarrow> jsval" where
  "flatten (Refinement msgs) =
     JObj [(''formErrors'', JArr (map JStr msgs)), (''fieldErrors'', JObj [])]"
| "flatten (TypeIssues []) =
     JObj [(''formErrors'', JArr [JStr ''Invalid input'']), (''fieldErrors'', JObj [])]"
| "flatten (TypeIssues fs) =
     JObj [(''formErrors'', JArr []),
           (''fieldErrors'', JObj (map (\<lambda>f. (f, JArr [JStr ''Invalid input''])) fs))]"

text \<open>The body sent upstream: the parsed fields in custom mode, and otherwise the
  prompt alone with every other field blanked.\<close>

definition payloadToUpstream :: "'a GenerationRequest_scheme \<Rightarrow> jsval" where
  "payloadToUpstream d =
     (if customMode d then
        JObj [(''customMode'', JBool (customMode d)),
              (''instrumental'', JBool (instrumental d)),
              (''title'', JStr (title d)),
              (''style'', JStr (style d)),
              (''prompt'', JStr (prompt d)),
              (''model'', JStr (model_name (model d))),
              (''negativeTags'', JStr (negativeTags d))]
      else
        JObj [(''customMode'', JBool False),
              (''prompt'', JStr (prompt d)),
              (''instrumental'', JBool False),
              (''title'', JStr []),
              (''style'', JStr []),
              (''model'', JStr []),
              (''negativeTags'', JStr [])])"

section \<open>The outside world\<close>

text \<open>What \<^verbatim>\<open>fetch\<close> yields: a response, whose body may or may not decode as JSON, or a
  thrown error. \<^verbatim>\<open>resp.ok\<close> is a status from 200 to 299, and
  \<^verbatim>\<open>await resp.json().catch(() => null)\<close> reads a body that does not decode as
  \<^verbatim>\<open>null\<close>.\<close>

record http_resp =
  status :: nat
  content :: "jsval option"

datatype fetched = NetworkError string | Response http_resp

definition ok :: "http_resp \<Rightarrow> bool" where
  "ok r = (200 \<le> status r \<and> status r \<le> 299)"

definition json_or_null :: "http_resp \<Rightarrow> jsval" where
  "json_or_null r = (case content r of None \<Rightarrow> JNull | Some v \<Rightarrow> v)"

text \<open>A request a handler sends, kept in the order of sending as the handler's trace.\<close>

record http_call =
  url :: string
  verb :: string
  authorization :: string
  payload :: "jsval option"

text \<open>One round of the poll loop as the world plays it: how long the status read took,
  what it yielded, and by how much the following sleep ran over the interval (all in
  milliseconds).\<close>

record poll_ev =
  took :: nat
  answer :: fetched
  overslept :: nat

text \<open>The world of one request: the clock when polling starts, the generation
  provider's answer to the launch, the successive status reads, the storage provider's
  answer to the upload made for record number \<open>i\<close>, and the order in which the
  uploads of a batch complete.\<close>

record world =
  clock :: rat
  launch :: "http_call \<Rightarrow> fetched"
  polls :: "poll_ev list"
  kie :: "nat \<Rightarrow> http_call \<Rightarrow> fetched"
  completion :: "nat list"

section \<open>Replies shared by the handlers\<close>

definition no_content :: reply where
  "no_content = \<lparr>statusCode = 204, sent = None\<rparr>"

definition method_not_allowed :: reply where
  "method_not_allowed =
     json 405 (normalizeAuthor
       (JObj [(''ok'', JBool False), (''message'', JStr ''Method not allowed'')]))"

text \<open>The \<^verbatim>\<open>catch\<close> of every handler.\<close>

definition internal_error :: "string \<Rightarrow> reply" where
  "internal_error msg =
     json 500 (normalizeAuthor (JObj [(''ok'', JBool False), (''message'', JStr msg)]))"

definition invalid_request :: "string \<Rightarrow> invalid \<Rightarrow> reply" where
  "invalid_request msg bad =
     json 400 (normalizeAuthor
       (JObj [(''ok'', JBool False), (''message'', JStr msg), (''errors'', flatten bad)]))"

definition start_call :: "string \<Rightarrow> jsval \<Rightarrow> http_call" where
  "start_call apiKey p =
     \<lparr>url = PAXSENIX_BASE_URL @ ''/ai-music/suno-music'', verb = ''POST'',
      authorization = ''Bearer '' @ apiKey, payload = Some p\<rparr>"

section \<open>Generate (\<^verbatim>\<open>index.ts\<close>)\<close>

definition handler_generate ::
  "'a env_scheme \<Rightarrow> 'b world_scheme \<Rightarrow> request \<Rightarrow> reply \<times> http_call list" where
  "handler_generate e w req =
     (if http_method req = ''OPTIONS'' then (no_content, [])
      else if http_method req \<noteq> ''POST'' then (method_not_allowed, [])
      else
        (case readJsonBody req of
           Inl msg \<Rightarrow> (internal_error msg, [])
         | Inr b \<Rightarrow>
             (case safeParse b of
                Inl bad \<Rightarrow> (invalid_request ''Invalid request'' bad, [])
              | Inr parsed \<Rightarrow>
                  (case getApiKey e of
                     Inl msg \<Rightarrow> (internal_error msg, [])
                   | Inr apiKey \<Rightarrow>
                       (let c = start_call apiKey (payloadToUpstream parsed) in
                        case launch w c of
                          NetworkError msg \<Rightarrow> (internal_error msg, [c])
                        | Response upstream \<Rightarrow>
                            (let d = json_or_null upstream in
                             if \<not> ok upstream then
                               (json 502 (normalizeAuthor
                                  (JObj [(''ok'', JBool False),
                                         (''message'', JStr ''Upstream error''),
                                         (''status'', JNum (of_nat (status upstream))),
                                         (''upstream'', d)])), [c])
                             else (json 200 (normalizeAuthor d), [c])))))))"

section \<open>The poll loop (\<^verbatim>\<open>wait.ts\<close>, \<^verbatim>\<open>wait-upload.ts\<close>)\<close>

text \<open>\<^verbatim>\<open>statusJson?.status === "done" && statusJson?.ok === true\<close>\<close>

definition is_done :: "jsval \<Rightarrow> bool" where
  "is_done statusJson =
     (jget statusJson ''status'' = Some (JStr ''done'') \<and>
      jget statusJson ''ok'' = Some (JBool True))"

text \<open>How the loop of either handler ends: in its branch for a finished job, with the
  status body; at the loop's exit, with the body read last (the source's \<^verbatim>\<open>last\<close>);
  or with an error that \<^verbatim>\<open>fetch\<close> threw. The number beside it counts the status
  reads made. The loop is run against the world's list of status reads, and \<open>None\<close>
  says that the list ended while the loop asked for another read.

  \<open>now\<close> is what \<^verbatim>\<open>Date.now()\<close> returns at the head of the loop; a round moves it
  forward by the time of the read and of the sleep.\<close>

datatype poll_result = Done jsval | TimedOut jsval | Threw string

fun poll_loop ::
  "rat \<Rightarrow> rat \<Rightarrow> rat \<Rightarrow> rat \<Rightarrow> jsval \<Rightarrow> poll_ev list \<Rightarrow> (poll_result \<times> nat) option" where
  "poll_loop timeoutMs pollIntervalMs startedAt now lastJson [] =
     (if now - startedAt < timeoutMs then None else Some (TimedOut lastJson, 0))"
| "poll_loop timeoutMs pollIntervalMs startedAt now lastJson (ev # evs) =
     (if now - startedAt < timeoutMs then
        (case answer ev of
           NetworkError msg \<Rightarrow> Some (Threw msg, 1)
         | Response statusResp \<Rightarrow>
             (let statusJson = json_or_null statusResp in
              if is_done statusJson then Some (Done statusJson, 1)
              else map_option (\<lambda>(r, n). (r, Suc n))
                     (poll_loop timeoutMs pollIntervalMs startedAt
                        (now + of_nat (took ev) + pollIntervalMs + of_nat (overslept ev))
                        statusJson evs)))
      else Some (TimedOut lastJson, 0))"

definition status_call :: "'a env_scheme \<Rightarrow> string \<Rightarrow> jsval \<Rightarrow> http_call" where
  "status_call e apiKey taskUrl =
     \<lparr>url = template e taskUrl, verb = ''GET'', authorization = ''Bearer '' @ apiKey,
      payload = None\<rparr>"

text \<open>\<^verbatim>\<open>startJson.task_url || `${PAXSENIX_BASE_URL}/task/${jobId}`\<close>\<close>

definition task_url_of :: "'a env_scheme \<Rightarrow> jsval \<Rightarrow> jsval \<Rightarrow> jsval" where
  "task_url_of e startJson jobId =
     (if truthy_opt (jget startJson ''task_url'')
      then (case jget startJson ''task_url'' of Some u \<Rightarrow> u | None \<Rightarrow> JNull)
      else JStr (PAXSENIX_BASE_URL @ ''/task/'' @ template e jobId))"

definition start_failed :: "http_resp \<Rightarrow> jsval \<Rightarrow> reply" where
  "start_failed startResp startJson =
     json 502 (normalizeAuthor
       (JObj [(''ok'', JBool False),
              (''message'', JStr ''Upstream start job failed''),
              (''status'', JNum (of_nat (status startResp))),
              (''upstream'', startJson)]))"

text \<open>\<^verbatim>\<open>last?.status ?? "unknown"\<close>\<close>

definition last_status :: "jsval \<Rightarrow> jsval" where
  "last_status lastJson =
     (case jget lastJson ''status'' of
        None \<Rightarrow> JStr ''unknown''
      | Some JNull \<Rightarrow> JStr ''unknown''
      | Some v \<Rightarrow> v)"

definition timed_out :: "jsval \<Rightarrow> jsval \<Rightarrow> jsval \<Rightarrow> reply" where
  "timed_out jobId taskUrl lastJson =
     json 408 (normalizeAuthor
       (JObj [(''ok'', JBool False),
              (''status'', last_status lastJson),
              (''message'', JStr ''Timeout waiting for music generation to finish''),
              (''jobId'', jobId),
              (''task_url'', taskUrl),
              (''lastResponse'', lastJson)]))"

section \<open>Generate and wait (\<^verbatim>\<open>wait.ts\<close>)\<close>

definition handler_wait ::
  "'a env_scheme \<Rightarrow> 'b world_scheme \<Rightarrow> request \<Rightarrow> (reply \<times> http_call list) option" where
  "handler_wait e w req =
     (if http_method req = ''OPTIONS'' then Some (no_content, [])
      else if http_method req \<noteq> ''POST'' then Some (method_not_allowed, [])
      else
        (let timeoutMs = parseTimeoutMs e req;
             pollIntervalMs = parsePollIntervalMs e req
         in
         case readJsonBody req of
           Inl msg \<Rightarrow> Some (internal_error msg, [])
         | Inr b \<Rightarrow>
             (case safeParse b of
                Inl bad \<Rightarrow> Some (invalid_request ''Invalid request'' bad, [])
              | Inr parsed \<Rightarrow>
                  (case getApiKey e of
                     Inl msg \<Rightarrow> Some (internal_error msg, [])
                   | Inr apiKey \<Rightarrow>
                       (let c = start_call apiKey (payloadToUpstream parsed) in
                        case launch w c of
                          NetworkError msg \<Rightarrow> Some (internal_error msg, [c])
                        | Response startResp \<Rightarrow>
                            (let startJson = json_or_null startResp in
                             case jget startJson ''jobId'' of
                               None \<Rightarrow> Some (start_failed startResp startJson, [c])
                             | Some jobId \<Rightarrow>
                                 if \<not> ok startResp \<or> \<not> truthy jobId
                                 then Some (start_failed startResp startJson, [c])
                                 else
                                   (let taskUrl = task_url_of e startJson jobId;
                                        p = status_call e apiKey taskUrl
                                    in
                                    case poll_loop timeoutMs pollIntervalMs (clock w) (clock w)
                                           JNull (polls w) of
                                      None \<Rightarrow> None
                                    | Some (Done statusJson, n) \<Rightarrow>
                                        Some (json 200 (normalizeAuthor statusJson),
                                              c # replicate n p)
                                    | Some (TimedOut lastJson, n) \<Rightarrow>
                                        Some (timed_out jobId taskUrl lastJson, c # replicate n p)
                                    | Some (Threw msg, n) \<Rightarrow>
                                        Some (internal_error msg, c # replicate n p))))))))"

section \<open>Re-hosting (\<^verbatim>\<open>wait-upload.ts\<close>)\<close>

text \<open>A promise that has settled: fulfilled with a value, or rejected with the message
  of the error thrown.\<close>

datatype 'a settled = Fulfilled 'a | Rejected string

text \<open>\<^verbatim>\<open>Promise.all\<close> over promises that settle in the order \<open>order\<close> (a list of
  indices). Each fulfilment writes its value into the slot of its own index; the first
  rejection rejects the whole. The result is \<open>None\<close> while a slot is still empty after
  the last completion of \<open>order\<close>.\<close>

fun settle_one ::
  "'a settled list \<Rightarrow> nat \<Rightarrow> ('a option list) settled \<Rightarrow> ('a option list) settled" where
  "settle_one ps i (Rejected msg) = Rejected msg"
| "settle_one ps i (Fulfilled slots) =
     (if i < length ps then
        (case ps ! i of
           Rejected msg \<Rightarrow> Rejected msg
         | Fulfilled v \<Rightarrow> Fulfilled (slots[i := Some v]))
      else Fulfilled slots)"

definition promise_all :: "nat list \<Rightarrow> 'a settled list \<Rightarrow> ('a list) settled option" where
  "promise_all order ps =
     (case fold (settle_one ps) order (Fulfilled (replicate (length ps) None)) of
        Rejected msg \<Rightarrow> Some (Rejected msg)
      | Fulfilled slots \<Rightarrow> map_option Fulfilled (those slots))"

text \<open>\<^verbatim>\<open>Number(v)\<close> on a decoded value: an array or object goes through its string
  conversion.\<close>

fun NumberOfVal :: "'a env_scheme \<Rightarrow> jsval \<Rightarrow> jsnum" where
  "NumberOfVal e JNull = Fin 0"
| "NumberOfVal e (JBool b) = Fin (if b then 1 else 0)"
| "NumberOfVal e (JNum r) = Fin r"
| "NumberOfVal e (JStr s) = Number e s"
| "NumberOfVal e v = Number e (String e v)"

text \<open>\<^verbatim>\<open>Math.round((bytes / 1024 / 1024) * 100) / 100\<close>, computed on rationals (the
  rounding of the floating-point division is not modelled); \<^verbatim>\<open>Math.round\<close> rounds a
  half upwards.\<close>

fun bytesToMb :: "jsnum \<Rightarrow> jsnum" where
  "bytesToMb (Fin bytes) = Fin (of_int \<lfloor>bytes / 1024 / 1024 * 100 + 1 / 2\<rfloor> / 100)"
| "bytesToMb n = n"

text \<open>\<^verbatim>\<open>bytes ? bytesToMb(bytes) : 0\<close>: zero and \<^verbatim>\<open>NaN\<close> are falsy.\<close>

definition fileSizeMB :: "jsnum \<Rightarrow> jsnum" where
  "fileSizeMB bytes = (if bytes = NaN \<or> bytes = Fin 0 then Fin 0 else bytesToMb bytes)"

text \<open>\<^verbatim>\<open>Number(d?.data?.fileSize ?? 0)\<close>\<close>

definition fileSizeBytes :: "'a env_scheme \<Rightarrow> jsval \<Rightarrow> jsnum" where
  "fileSizeBytes e d =
     NumberOfVal e
       (case jget2 d ''data'' ''fileSize'' of
          None \<Rightarrow> JNum 0
        | Some JNull \<Rightarrow> JNum 0
        | Some v \<Rightarrow> v)"

definition upload_call :: "string \<Rightarrow> string \<Rightarrow> string \<Rightarrow> string option \<Rightarrow> http_call" where
  "upload_call key fileUrl uploadPath fileName =
     \<lparr>url = KIE_FILE_UPLOAD_URL, verb = ''POST'', authorization = ''Bearer '' @ key,
      payload = Some (JObj
        ([(''fileUrl'', JStr fileUrl), (''uploadPath'', JStr uploadPath)] @
         (case fileName of
            None \<Rightarrow> []
          | Some f \<Rightarrow> if f = [] then [] else [(''fileName'', JStr f)])))\<rparr>"

text \<open>\<^verbatim>\<open>kieUploadFromUrl\<close> of \<^verbatim>\<open>wait-upload.ts\<close> resolves to
  \<^verbatim>\<open>{ok: false, status, upstream}\<close> or to \<^verbatim>\<open>{ok: true, result}\<close>; it rejects when the
  key is missing or \<^verbatim>\<open>fetch\<close> throws. The second component lists the calls made.\<close>

datatype up_result = UpFailed nat jsval | UpOk jsval

definition kieUploadFromUrl ::
  "'a env_scheme \<Rightarrow> (http_call \<Rightarrow> fetched) \<Rightarrow> string \<Rightarrow> string \<Rightarrow> string option \<Rightarrow>
   up_result settled \<times> http_call list" where
  "kieUploadFromUrl e srv fileUrl uploadPath fileName =
     (case getKieApiKey e of
        Inl msg \<Rightarrow> (Rejected msg, [])
      | Inr key \<Rightarrow>
          (let c = upload_call key fileUrl uploadPath fileName in
           case srv c of
             NetworkError msg \<Rightarrow> (Rejected msg, [c])
           | Response resp \<Rightarrow>
               (let d = json_or_null resp in
                if \<not> ok resp then (Fulfilled (UpFailed (status resp) d), [c])
                else (Fulfilled (UpOk d), [c]))))"

text \<open>The fields both handlers report about a stored file, read from the storage
  provider's decoded answer \<open>d\<close>.\<close>

definition stored_fields :: "'a env_scheme \<Rightarrow> jsval \<Rightarrow> (string \<times> jsval) list" where
  "stored_fields e d =
     opt_field ''downloadUrl'' (jget2 d ''data'' ''downloadUrl'') @
     [(''fileSizeBytes'', num_json (fileSizeBytes e d)),
      (''fileSizeMB'', num_json (fileSizeMB (fileSizeBytes e d)))] @
     opt_field ''mimeType'' (jget2 d ''data'' ''mimeType'') @
     opt_field ''fileName'' (jget2 d ''data'' ''fileName'') @
     opt_field ''filePath'' (jget2 d ''data'' ''filePath'') @
     opt_field ''uploadedAt'' (jget2 d ''data'' ''uploadedAt'')"

text \<open>\<^verbatim>\<open>(parsed.data.kieFileName || "").trim() || `${jobId}-${idx + 1}.mp3`\<close>\<close>

definition kie_file_name ::
  "'a env_scheme \<Rightarrow> 'b UploadRequest_scheme \<Rightarrow> jsval \<Rightarrow> nat \<Rightarrow> string" where
  "kie_file_name e parsed jobId idx =
     (if trim (kieFileName parsed) \<noteq> [] then trim (kieFileName parsed)
      else template e jobId @ ''-'' @ show_nat (idx + 1) @ ''.mp3'')"

text \<open>The callback of \<^verbatim>\<open>records.map\<close>, for the record \<open>r\<close> at index \<open>idx\<close>.\<close>

definition upload_record ::
  "'a env_scheme \<Rightarrow> (nat \<Rightarrow> http_call \<Rightarrow> fetched) \<Rightarrow> 'b UploadRequest_scheme \<Rightarrow> jsval \<Rightarrow>
   jsval \<Rightarrow> nat \<Rightarrow> jsval settled \<times> http_call list" where
  "upload_record e srv parsed jobId r idx =
     (let audioUrl = (case jget r ''audio_url'' of Some (JStr s) \<Rightarrow> s | _ \<Rightarrow> []) in
      if audioUrl = [] then
        (Fulfilled (JObj [(''ok'', JBool False),
                          (''message'', JStr ''missing audio_url''),
                          (''recordIndex'', JNum (of_nat idx))]), [])
      else
        (let fileName = kie_file_name e parsed jobId idx in
         case kieUploadFromUrl e (srv idx) audioUrl (kieUploadPath parsed) (Some fileName) of
           (Rejected msg, cs) \<Rightarrow> (Rejected msg, cs)
         | (Fulfilled (UpFailed st d), cs) \<Rightarrow>
             (Fulfilled (JObj [(''ok'', JBool False),
                               (''recordIndex'', JNum (of_nat idx)),
                               (''uploadError'',
                                JObj [(''ok'', JBool False),
                                      (''status'', JNum (of_nat st)),
                                      (''upstream'', d)])]), cs)
         | (Fulfilled (UpOk d), cs) \<Rightarrow>
             (Fulfilled (JObj [(''ok'', JBool True),
                               (''recordIndex'', JNum (of_nat idx)),
                               (''sourceAudioUrl'', JStr audioUrl),
                               (''kie'', JObj (stored_fields e d))]), cs)))"

text \<open>\<^verbatim>\<open>Array.isArray(statusJson?.records) ? statusJson.records : []\<close>\<close>

definition records_of :: "jsval \<Rightarrow> jsval list" where
  "records_of statusJson = (case jget statusJson ''records'' of Some (JArr rs) \<Rightarrow> rs | _ \<Rightarrow> [])"

text \<open>The batch: \<^verbatim>\<open>records.map\<close> starts every upload in index order, and
  \<^verbatim>\<open>Promise.all\<close> joins them in the world's completion order.\<close>

definition upload_all ::
  "'a env_scheme \<Rightarrow> 'c world_scheme \<Rightarrow> 'b UploadRequest_scheme \<Rightarrow> jsval \<Rightarrow> jsval list \<Rightarrow>
   (jsval list) settled option \<times> http_call list" where
  "upload_all e w parsed jobId records =
     (let tasks = map (\<lambda>(r, idx). upload_record e (kie w) parsed jobId r idx)
                      (zip records [0..<length records])
      in (promise_all (completion w) (map fst tasks), concat (map snd tasks)))"

text \<open>The own properties a spread copies. The handler spreads a status body for which
  \<open>is_done\<close> holds, which is an object.\<close>

fun own_props :: "jsval \<Rightarrow> (string \<times> jsval) list" where
  "own_props (JObj kvs) = kvs"
| "own_props (JArr xs) = zip (map show_nat [0..<length xs]) xs"
| "own_props v = []"

definition handler_wait_upload ::
  "'a env_scheme \<Rightarrow> 'b world_scheme \<Rightarrow> request \<Rightarrow> (reply \<times> http_call list) option" where
  "handler_wait_upload e w req =
     (if http_method req = ''OPTIONS'' then Some (no_content, [])
      else if http_method req \<noteq> ''POST'' then Some (method_not_allowed, [])
      else
        (let timeoutMs = parseTimeoutMs e req;
             pollIntervalMs = parsePollIntervalMs e req
         in
         case readJsonBody req of
           Inl msg \<Rightarrow> Some (internal_error msg, [])
         | Inr b \<Rightarrow>
             (case safeParse_upload b of
                Inl bad \<Rightarrow> Some (invalid_request ''Invalid request'' bad, [])
              | Inr parsed \<Rightarrow>
                  (case getApiKey e of
                     Inl msg \<Rightarrow> Some (internal_error msg, [])
                   | Inr apiKey \<Rightarrow>
                       (let c = start_call apiKey (payloadToUpstream parsed) in
                        case launch w c of
                          NetworkError msg \<Rightarrow> Some (internal_error msg, [c])
                        | Response startResp \<Rightarrow>
                            (let startJson = json_or_null startResp in
                             case jget startJson ''jobId'' of
                               None \<Rightarrow> Some (start_failed startResp startJson, [c])
                             | Some jobId \<Rightarrow>
                                 if \<not> ok startResp \<or> \<not> truthy jobId
                                 then Some (start_failed startResp startJson, [c])
                                 else
                                   (let taskUrl = task_url_of e startJson jobId;
                                        p = status_call e apiKey taskUrl
                                    in
                                    case poll_loop timeoutMs pollIntervalMs (clock w) (clock w)
                                           JNull (polls w) of
                                      None \<Rightarrow> None
                                    | Some (Done statusJson, n) \<Rightarrow>
                                        (case upload_all e w parsed jobId (records_of statusJson) of
                                           (None, cs) \<Rightarrow> None
                                         | (Some (Rejected msg), cs) \<Rightarrow>
                                             Some (internal_error msg, c # replicate n p @ cs)
                                         | (Some (Fulfilled uploads), cs) \<Rightarrow>
                                             Some (json 200 (normalizeAuthor
                                                     (JObj (obj_spread (own_props statusJson)
                                                        [(''jobId'', jobId),
                                                         (''task_url'', taskUrl),
                                                         (''kieUploads'', JArr uploads)]))),
                                                   c # replicate n p @ cs))
                                    | Some (TimedOut lastJson, n) \<Rightarrow>
                                        Some (timed_out jobId taskUrl lastJson, c # replicate n p)
                                    | Some (Threw msg, n) \<Rightarrow>
                                        Some (internal_error msg, c # replicate n p))))))))"

section \<open>The cover callback receiver\<close>

text \<open>The envelope as the callback schema types it; every field is optional.\<close>

record item =
  item_id :: "string option"
  audio_url :: "string option"
  image_url :: "string option"
  item_title :: "string option"
  item_prompt :: "string option"
  duration :: "rat option"

record callback_data =
  callbackType :: "string option"
  task_id :: "string option"
  items :: "item list option"

record envelope =
  code :: "rat option"
  msg :: "string option"
  data :: "callback_data option"

text \<open>Optional fields: an absent field is \<open>Some None\<close>, a field of the wrong type is
  \<open>None\<close>.\<close>

definition z_string_optional :: "jsval option \<Rightarrow> string option option" where
  "z_string_optional v =
     (case v of None \<Rightarrow> Some None | Some (JStr s) \<Rightarrow> Some (Some s) | _ \<Rightarrow> None)"

definition z_url_optional :: "'a env_scheme \<Rightarrow> jsval option \<Rightarrow> string option option" where
  "z_url_optional e v =
     (case v of
        None \<Rightarrow> Some None
      | Some (JStr s) \<Rightarrow> if isUrl e s then Some (Some s) else None
      | _ \<Rightarrow> None)"

definition z_number_optional :: "jsval option \<Rightarrow> rat option option" where
  "z_number_optional v =
     (case v of None \<Rightarrow> Some None | Some (JNum r) \<Rightarrow> Some (Some r) | _ \<Rightarrow> None)"

definition z_item :: "'a env_scheme \<Rightarrow> jsval \<Rightarrow> item option" where
  "z_item e v =
     (case v of
        JObj kvs \<Rightarrow>
          (case (z_string_optional (jget v ''id''),
                 z_url_optional e (jget v ''audio_url''),
                 z_url_optional e (jget v ''image_url''),
                 z_string_optional (jget v ''title''),
                 z_string_optional (jget v ''prompt''),
                 z_number_optional (jget v ''duration'')) of
             (Some i, Some a, Some im, Some t, Some p, Some d) \<Rightarrow>
               Some \<lparr>item_id = i, audio_url = a, image_url = im, item_title = t,
                     item_prompt = p, duration = d\<rparr>
           | _ \<Rightarrow> None)
      | _ \<Rightarrow> None)"

definition z_items :: "'a env_scheme \<Rightarrow> jsval option \<Rightarrow> item list option option" where
  "z_items e v =
     (case v of
        None \<Rightarrow> Some None
      | Some (JArr xs) \<Rightarrow> map_option Some (those (map (z_item e) xs))
      | _ \<Rightarrow> None)"

definition z_callback_data :: "'a env_scheme \<Rightarrow> jsval option \<Rightarrow> callback_data option option" where
  "z_callback_data e v =
     (case v of
        None \<Rightarrow> Some None
      | Some (JObj kvs) \<Rightarrow>
          (case (z_string_optional (map_of kvs ''callbackType''),
                 z_string_optional (map_of kvs ''task_id''),
                 z_items e (map_of kvs ''data'')) of
             (Some ct, Some t, Some xs) \<Rightarrow>
               Some (Some \<lparr>callbackType = ct, task_id = t, items = xs\<rparr>)
           | _ \<Rightarrow> None)
      | _ \<Rightarrow> None)"

definition callbackSchema :: "'a env_scheme \<Rightarrow> jsval \<Rightarrow> string list + envelope" where
  "callbackSchema e b =
     (case b of
        JObj kvs \<Rightarrow>
          (case (z_number_optional (jget b ''code''),
                 z_string_optional (jget b ''msg''),
                 z_callback_data e (jget b ''data'')) of
             (Some c, Some m, Some d) \<Rightarrow> Inr \<lparr>code = c, msg = m, data = d\<rparr>
           | (c, m, d) \<Rightarrow>
               Inl (bad_field ''code'' c @ bad_field ''msg'' m @ bad_field ''data'' d))
      | _ \<Rightarrow> Inl [])"

text \<open>The parsed envelope as the reply echoes it: an absent field stays absent.\<close>

definition item_json :: "item \<Rightarrow> jsval" where
  "item_json i =
     JObj (opt_field ''id'' (map_option JStr (item_id i)) @
           opt_field ''audio_url'' (map_option JStr (audio_url i)) @
           opt_field ''image_url'' (map_option JStr (image_url i)) @
           opt_field ''title'' (map_option JStr (item_title i)) @
           opt_field ''prompt'' (map_option JStr (item_prompt i)) @
           opt_field ''duration'' (map_option JNum (duration i)))"

definition callback_data_json :: "callback_data \<Rightarrow> jsval" where
  "callback_data_json d =
     JObj (opt_field ''callbackType'' (map_option JStr (callbackType d)) @
           opt_field ''task_id'' (map_option JStr (task_id d)) @
           opt_field ''data'' (map_option (\<lambda>xs. JArr (map item_json xs)) (items d)))"

definition envelope_json :: "envelope \<Rightarrow> jsval" where
  "envelope_json p =
     JObj (opt_field ''code'' (map_option JNum (code p)) @
           opt_field ''msg'' (map_option JStr (msg p)) @
           opt_field ''data'' (map_option callback_data_json (data p)))"

text \<open>\<^verbatim>\<open>kieUploadFromUrl\<close> of the receiver resolves to \<^verbatim>\<open>{ok, status, upstream}\<close> for
  every response.\<close>

record cb_upload =
  up_ok :: bool
  up_status :: nat
  upstream :: jsval

definition kieUploadFromUrl_cb ::
  "'a env_scheme \<Rightarrow> (http_call \<Rightarrow> fetched) \<Rightarrow> string \<Rightarrow> string \<Rightarrow> string option \<Rightarrow>
   cb_upload settled \<times> http_call list" where
  "kieUploadFromUrl_cb e srv fileUrl uploadPath fileName =
     (case getKieApiKey e of
        Inl m \<Rightarrow> (Rejected m, [])
      | Inr key \<Rightarrow>
          (let c = upload_call key fileUrl uploadPath fileName in
           case srv c of
             NetworkError m \<Rightarrow> (Rejected m, [c])
           | Response resp \<Rightarrow>
               (Fulfilled \<lparr>up_ok = ok resp, up_status = status resp,
                           upstream = json_or_null resp\<rparr>, [c])))"

definition cb_upload_json :: "cb_upload \<Rightarrow> jsval" where
  "cb_upload_json up =
     JObj [(''ok'', JBool (up_ok up)), (''status'', JNum (of_nat (up_status up))),
           (''upstream'', upstream up)]"

text \<open>\<^verbatim>\<open>`${payload.data?.task_id ?? "task"}-${first.id ?? "track"}.mp3`\<close>\<close>

definition cover_file_name :: "envelope \<Rightarrow> item \<Rightarrow> string" where
  "cover_file_name p first =
     (case (case data p of None \<Rightarrow> None | Some d \<Rightarrow> task_id d) of
        None \<Rightarrow> ''task'' | Some t \<Rightarrow> t) @ ''-'' @
     (case item_id first of None \<Rightarrow> ''track'' | Some i \<Rightarrow> i) @ ''.mp3''"

text \<open>\<^verbatim>\<open>payload.data?.callbackType\<close> and \<^verbatim>\<open>payload.data?.data ?? []\<close>\<close>

definition callbackType_of :: "envelope \<Rightarrow> string option" where
  "callbackType_of p = (case data p of None \<Rightarrow> None | Some d \<Rightarrow> callbackType d)"

definition items_of :: "envelope \<Rightarrow> item list" where
  "items_of p =
     (case data p of
        None \<Rightarrow> []
      | Some d \<Rightarrow> (case items d of None \<Rightarrow> [] | Some xs \<Rightarrow> xs))"

text \<open>The acknowledgement that ends every run of the receiver past validation.\<close>

definition acknowledged :: "envelope \<Rightarrow> jsval \<Rightarrow> reply" where
  "acknowledged p uploaded =
     json 200 (normalizeAuthor
       (JObj [(''ok'', JBool True),
              (''received'', envelope_json p),
              (''kieUploadedFirstTrack'', uploaded)]))"

definition handler_callback ::
  "'a env_scheme \<Rightarrow> 'b world_scheme \<Rightarrow> request \<Rightarrow> reply \<times> http_call list" where
  "handler_callback e w req =
     (if http_method req = ''OPTIONS'' then (no_content, [])
      else if http_method req \<noteq> ''POST'' then (method_not_allowed, [])
      else
        (case readJsonBody req of
           Inl m \<Rightarrow> (internal_error m, [])
         | Inr b \<Rightarrow>
             (case callbackSchema e b of
                Inl bad \<Rightarrow> (invalid_request ''Invalid callback payload'' (TypeIssues bad), [])
              | Inr p \<Rightarrow>
                  (let cbType = callbackType_of p;
                       its = items_of p
                   in
                   if code p = Some 200 \<and> cbType = Some ''complete'' \<and> length its > 0 then
                     (case its of
                        [] \<Rightarrow> (acknowledged p JNull, [])
                      | first # rest \<Rightarrow>
                          (case audio_url first of
                             None \<Rightarrow> (acknowledged p JNull, [])
                           | Some audioUrl \<Rightarrow>
                               if audioUrl = [] then (acknowledged p JNull, [])
                               else
                                 (case kieUploadFromUrl_cb e (kie w 0) audioUrl
                                         ''music/cover-audio''
                                         (Some (cover_file_name p first)) of
                                    (Rejected m, cs) \<Rightarrow> (internal_error m, cs)
                                  | (Fulfilled up, cs) \<Rightarrow>
                                      if up_ok up then
                                        (acknowledged p
                                           (JObj ((''sourceAudioUrl'', JStr audioUrl) #
                                                  stored_fields e (upstream up))), cs)
                                      else
                                        (acknowledged p
                                           (JObj [(''ok'', JBool False),
                                                  (''uploadError'', cb_upload_json up)]), cs))))
                   else (acknowledged p JNull, [])))))"

section \<open>A concrete runtime for evaluation\<close>

text \<open>The general theorems hold for every runtime. Where a concrete request is
  evaluated, the conversions are these: \<open>Number_decimal\<close> agrees with \<^verbatim>\<open>Number\<close> on the
  empty string, on decimal integers with an optional minus sign, and on text that has
  no numeric reading; \<open>String_plain\<close> agrees with the string conversion on strings,
  \<^verbatim>\<open>null\<close>, booleans and objects; \<open>isUrl_https\<close> accepts the \<^verbatim>\<open>https\<close> addresses
  used in the examples.\<close>

fun digits_val :: "string \<Rightarrow> nat \<Rightarrow> nat option" where
  "digits_val [] acc = Some acc"
| "digits_val (c # cs) acc =
     (if (48 :: nat) \<le> of_char c \<and> of_char c \<le> (57 :: nat)
      then digits_val cs (10 * acc + (of_char c - 48))
      else None)"

definition Number_decimal :: "string \<Rightarrow> jsnum" where
  "Number_decimal s =
     (case s of
        [] \<Rightarrow> Fin 0
      | c # cs \<Rightarrow>
          if c = CHR ''-'' \<and> cs \<noteq> [] then
            (case digits_val cs 0 of Some n \<Rightarrow> Fin (- of_nat n) | None \<Rightarrow> NaN)
          else (case digits_val s 0 of Some n \<Rightarrow> Fin (of_nat n) | None \<Rightarrow> NaN))"

definition String_plain :: "jsval \<Rightarrow> string" where
  "String_plain v =
     (case v of
        JStr s \<Rightarrow> s
      | JNull \<Rightarrow> ''null''
      | JBool b \<Rightarrow> (if b then ''true'' else ''false'')
      | _ \<Rightarrow> ''[object Object]'')"

definition isUrl_https :: "string \<Rightarrow> bool" where
  "isUrl_https s = (take 8 s = ''https://'' \<and> 8 < length s)"

definition test_env :: env where
  "test_env =
     \<lparr>PAXSENIX_API_KEY = Some ''pax-key'', KIE_API_KEY = Some ''kie-key'',
      Number = Number_decimal, String = String_plain, isUrl = isUrl_https\<rparr>"

section \<open>Vocabulary of the statements\<close>

text \<open>What \<^verbatim>\<open>Date.now()\<close> returns at the head of round \<open>k\<close> (counted from 0) of a loop
  that starts at \<open>now\<close>, sleeps \<open>I\<close> between reads and is played the reads \<open>evs\<close>.\<close>

fun head_time :: "rat \<Rightarrow> rat \<Rightarrow> poll_ev list \<Rightarrow> nat \<Rightarrow> rat" where
  "head_time I now evs 0 = now"
| "head_time I now [] (Suc k) = now"
| "head_time I now (ev # evs) (Suc k) =
     head_time I (now + of_nat (took ev) + I + of_nat (overslept ev)) evs k"

text \<open>The decoded body of a status read (\<^verbatim>\<open>null\<close> when the body does not decode);
  \<open>None\<close> when \<^verbatim>\<open>fetch\<close> threw.\<close>

definition reading :: "poll_ev \<Rightarrow> jsval option" where
  "reading ev =
     (case answer ev of NetworkError m \<Rightarrow> None | Response r \<Rightarrow> Some (json_or_null r))"

text \<open>A read that does not end the loop: a response, of any HTTP status, whose decoded
  body is not a finished job.\<close>

definition pending :: "poll_ev \<Rightarrow> bool" where
  "pending ev =
     (case answer ev of NetworkError m \<Rightarrow> False | Response r \<Rightarrow> \<not> is_done (json_or_null r))"

text \<open>An ideal round: the read takes no time and the sleep lasts exactly the
  interval.\<close>

definition ideal :: "poll_ev \<Rightarrow> bool" where
  "ideal ev = (took ev = 0 \<and> overslept ev = 0)"

text \<open>A read with the HTTP status of its response replaced.\<close>

definition restatus :: "(nat \<Rightarrow> nat) \<Rightarrow> poll_ev \<Rightarrow> poll_ev" where
  "restatus f ev =
     (case answer ev of
        NetworkError m \<Rightarrow> ev
      | Response r \<Rightarrow> ev\<lparr>answer := Response (r\<lparr>status := f (status r)\<rparr>)\<rparr>)"

section \<open>Example requests\<close>

definition query_request :: "(string \<rightharpoonup> qval) \<Rightarrow> request" where
  "query_request q = \<lparr>http_method = ''POST'', query = Some q, raw = NoBody\<rparr>"

definition blank_prompt :: GenerationRequest where
  "blank_prompt =
     \<lparr>customMode = False, instrumental = False, title = [], style = [], prompt = ''   '',
      model = V5, negativeTags = []\<rparr>"

definition lofi_prompt :: UploadRequest where
  "lofi_prompt =
     \<lparr>customMode = False, instrumental = False, title = [], style = [],
      prompt = ''lofi chill beat'', model = V5, negativeTags = [],
      kieUploadPath = ''music/paxsenix'', kieFileName = []\<rparr>"

definition status_body :: "bool \<Rightarrow> string \<Rightarrow> jsval" where
  "status_body flag st = JObj [(''ok'', JBool flag), (''status'', JStr st)]"

definition read_of :: "nat \<Rightarrow> jsval option \<Rightarrow> poll_ev" where
  "read_of st b = \<lparr>took = 0, answer = Response \<lparr>status = st, content = b\<rparr>, overslept = 0\<rparr>"

definition pending_read :: poll_ev where
  "pending_read = read_of 200 (Some (status_body False ''pending''))"

definition processing_read :: poll_ev where
  "processing_read = read_of 200 (Some (status_body False ''processing''))"

definition done_read :: poll_ev where
  "done_read = read_of 200 (Some (status_body True ''done''))"

text \<open>Reads that take a second each.\<close>

definition slow :: "poll_ev \<Rightarrow> poll_ev" where
  "slow ev = ev\<lparr>took := 1000\<rparr>"

definition done_unflagged_read :: poll_ev where
  "done_unflagged_read = read_of 200 (Some (JObj [(''status'', JStr ''done'')]))"

definition done_false_read :: poll_ev where
  "done_false_read = read_of 200 (Some (status_body False ''done''))"

definition failed_read :: poll_ev where
  "failed_read = read_of 500 None"

text \<open>The end-to-end scenario: a prompt-only request, a launch answered with the job
  \<^verbatim>\<open>abc\<close>, and a storage provider that refuses the upload for the second record of
  a batch.\<close>

definition lofi_body :: jsval where
  "lofi_body = JObj [(''customMode'', JBool False), (''prompt'', JStr ''lofi chill beat'')]"

definition lofi_request :: request where
  "lofi_request =
     \<lparr>http_method = ''POST'',
      query = Some (Map.empty(''timeoutMs'' \<mapsto> QStr ''3000'', ''pollIntervalMs'' \<mapsto> QStr ''1000'')),
      raw = Json lofi_body\<rparr>"

definition lofi_simple :: GenerationRequest where
  "lofi_simple =
     \<lparr>customMode = False, instrumental = False, title = [], style = [],
      prompt = ''lofi chill beat'', model = V5, negativeTags = []\<rparr>"

definition job_started :: "jsval \<Rightarrow> http_resp" where
  "job_started b = \<lparr>status = 200, content = Some b\<rparr>"

definition abc_job :: jsval where
  "abc_job =
     JObj [(''ok'', JBool True), (''jobId'', JStr ''abc''),
           (''task_url'', JStr ''https://api.paxsenix.org/task/abc'')]"

definition stored :: "string \<Rightarrow> http_resp" where
  "stored u =
     \<lparr>status = 200,
      content = Some (JObj [(''success'', JBool True),
                            (''data'', JObj [(''downloadUrl'', JStr u)])])\<rparr>"

definition second_refused :: "nat \<Rightarrow> http_call \<Rightarrow> fetched" where
  "second_refused i c =
     (if i = 1 then Response \<lparr>status = 500, content = None\<rparr>
      else Response (stored ''https://files.example/track.mp3''))"

definition example_world :: "http_resp \<Rightarrow> poll_ev list \<Rightarrow> world" where
  "example_world started evs =
     \<lparr>clock = 0, launch = (\<lambda>c. Response started), polls = evs, kie = second_refused,
      completion = [2, 0, 1]\<rparr>"

definition track :: "string \<Rightarrow> jsval" where
  "track u = JObj [(''audio_url'', JStr u), (''duration'', JNum 130)]"

definition three_tracks :: "jsval list" where
  "three_tracks =
     [track ''https://cdn.example/a.mp3'', track ''https://cdn.example/b.mp3'',
      track ''https://cdn.example/c.mp3'']"

definition middle_track_missing :: "jsval list" where
  "middle_track_missing =
     [track ''https://cdn.example/a.mp3'', JObj [(''duration'', JNum 130)],
      track ''https://cdn.example/c.mp3'']"

definition done_with :: "jsval list \<Rightarrow> poll_ev" where
  "done_with rs =
     read_of 200 (Some (JObj [(''ok'', JBool True), (''status'', JStr ''done''),
                              (''records'', JArr rs)]))"

text \<open>Callbacks of the cover provider for task \<^verbatim>\<open>task9\<close>.\<close>

definition callback_body :: "string \<Rightarrow> jsval list \<Rightarrow> jsval" where
  "callback_body ct its =
     JObj [(''code'', JNum 200), (''msg'', JStr ''ok''),
           (''data'', JObj [(''callbackType'', JStr ct), (''task_id'', JStr ''task9''),
                            (''data'', JArr its)])]"

definition callback_request :: "jsval \<Rightarrow> request" where
  "callback_request b = \<lparr>http_method = ''POST'', query = None, raw = Json b\<rparr>"

definition callback_envelope :: "string \<Rightarrow> item list \<Rightarrow> envelope" where
  "callback_envelope ct its =
     \<lparr>code = Some 200, msg = Some ''ok'',
      data = Some \<lparr>callbackType = Some ct, task_id = Some ''task9'', items = Some its\<rparr>\<rparr>"

definition cover_track :: "string option \<Rightarrow> item" where
  "cover_track u =
     \<lparr>item_id = Some ''t1'', audio_url = u, image_url = None, item_title = None,
      item_prompt = None, duration = None\<rparr>"

definition cover_track_json :: "string option \<Rightarrow> jsval" where
  "cover_track_json u = JObj ((''id'', JStr ''t1'') # opt_field ''audio_url'' (map_option JStr u))"

definition refusing_world :: world where
  "refusing_world =
     \<lparr>clock = 0, launch = (\<lambda>c. NetworkError ''unused''), polls = [],
      kie = (\<lambda>i c. Response \<lparr>status = 500, content = None\<rparr>), completion = []\<rparr>"

section \<open>Polling parameters\<close>

lemma parseTimeoutMs_cases:
  "parseTimeoutMs e req =
     (case nullish (qget req ''timeoutMs'') (qget req ''timeout'') of
        None \<Rightarrow> 300000
      | Some rw \<Rightarrow>
          (case NumberOfRaw e rw of
             Fin n \<Rightarrow> if n \<le> 0 then 300000 else if n \<le> 900000 then n else 900000
           | _ \<Rightarrow> 300000))"
  by (simp add: parseTimeoutMs_def DEFAULT_TIMEOUT_MS_def min_def
      split: option.splits jsnum.splits)

lemma parsePollIntervalMs_cases:
  "parsePollIntervalMs e req =
     (case nullish (qget req ''pollIntervalMs'') (qget req ''poll'') of
        None \<Rightarrow> 5000
      | Some rw \<Rightarrow>
          (case NumberOfRaw e rw of
             Fin n \<Rightarrow> if n < 1000 then 5000 else if n \<le> 30000 then n else 30000
           | _ \<Rightarrow> 5000))"
  by (simp add: parsePollIntervalMs_def DEFAULT_POLL_INTERVAL_MS_def min_def
      split: option.splits jsnum.splits)

lemma parseTimeoutMs_range: "0 < parseTimeoutMs e req \<and> parseTimeoutMs e req \<le> 900000"
  by (simp add: parseTimeoutMs_cases split: option.splits jsnum.splits)

lemma parsePollIntervalMs_range:
  "1000 \<le> parsePollIntervalMs e req \<and> parsePollIntervalMs e req \<le> 30000"
  by (simp add: parsePollIntervalMs_cases split: option.splits jsnum.splits)

lemma not_Fin_case:
  "\<forall>r. n \<noteq> Fin r \<Longrightarrow> (case n of Fin r \<Rightarrow> f r | _ \<Rightarrow> (d :: rat)) = d"
  by (cases n) auto

text \<open>
  C2, as the code has it. Write \<open>n\<close> for the number read from the parameter
  (\<^verbatim>\<open>timeoutMs\<close>, or its alias \<^verbatim>\<open>timeout\<close>; \<^verbatim>\<open>pollIntervalMs\<close>, or its alias
  \<^verbatim>\<open>poll\<close>). The budget is 300000 when the parameter is absent, not a finite number,
  zero or negative; it is \<open>n\<close> up to 900000 and 900000 above. The interval is 5000
  when the parameter is absent, not a finite number, or below 1000 (the floor is not
  clamped to: a value below it yields the default); it is \<open>n\<close> from 1000 to 30000 and
  30000 above. No input produces an error: the budget always lies in (0, 900000] and
  the interval in [1000, 30000].
\<close>

theorem polling_parameters_clamped:
  "(nullish (qget req ''timeoutMs'') (qget req ''timeout'') = None \<longrightarrow>
      parseTimeoutMs e req = 300000) \<and>
   (nullish (qget req ''timeoutMs'') (qget req ''timeout'') = Some rw \<longrightarrow>
      ((\<forall>n. NumberOfRaw e rw \<noteq> Fin n) \<longrightarrow> parseTimeoutMs e req = 300000) \<and>
      (\<forall>n. NumberOfRaw e rw = Fin n \<longrightarrow>
         (n \<le> 0 \<longrightarrow> parseTimeoutMs e req = 300000) \<and>
         (0 < n \<and> n \<le> 900000 \<longrightarrow> parseTimeoutMs e req = n) \<and>
         (900000 < n \<longrightarrow> parseTimeoutMs e req = 900000))) \<and>
   (nullish (qget req ''pollIntervalMs'') (qget req ''poll'') = None \<longrightarrow>
      parsePollIntervalMs e req = 5000) \<and>
   (nullish (qget req ''pollIntervalMs'') (qget req ''poll'') = Some rw' \<longrightarrow>
      ((\<forall>n. NumberOfRaw e rw' \<noteq> Fin n) \<longrightarrow> parsePollIntervalMs e req = 5000) \<and>
      (\<forall>n. NumberOfRaw e rw' = Fin n \<longrightarrow>
         (n < 1000 \<longrightarrow> parsePollIntervalMs e req = 5000) \<and>
         (1000 \<le> n \<and> n \<le> 30000 \<longrightarrow> parsePollIntervalMs e req = n) \<and>
         (30000 < n \<longrightarrow> parsePollIntervalMs e req = 30000))) \<and>
   0 < parseTimeoutMs e req \<and> parseTimeoutMs e req \<le> 900000 \<and>
   1000 \<le> parsePollIntervalMs e req \<and> parsePollIntervalMs e req \<le> 30000"
  using parseTimeoutMs_range [of e req] parsePollIntervalMs_range [of e req]
  by (intro conjI impI allI)
     (simp_all add: parseTimeoutMs_cases parsePollIntervalMs_cases not_Fin_case)

lemma test_env_Number: "Number test_env = Number_decimal"
  by (simp add: test_env_def)

theorem polling_parameters_clamped_witness:
  "NumberOfRaw test_env (QStr ''10000000'') = Fin 10000000 \<and>
   NumberOfRaw test_env (QStr ''100'') = Fin 100 \<and>
   parseTimeoutMs test_env
     (query_request (Map.empty(''timeoutMs'' \<mapsto> QStr ''10000000'',
                               ''pollIntervalMs'' \<mapsto> QStr ''100''))) = 900000 \<and>
   parsePollIntervalMs test_env
     (query_request (Map.empty(''timeoutMs'' \<mapsto> QStr ''10000000'',
                               ''pollIntervalMs'' \<mapsto> QStr ''100''))) = 5000 \<and>
   NumberOfRaw test_env (QStr ''-5'') = Fin (- 5) \<and>
   NumberOfRaw test_env (QStr ''abc'') = NaN \<and>
   parseTimeoutMs test_env
     (query_request (Map.empty(''timeout'' \<mapsto> QStr ''-5'',
                               ''poll'' \<mapsto> QStr ''abc''))) = 300000 \<and>
   parsePollIntervalMs test_env
     (query_request (Map.empty(''timeout'' \<mapsto> QStr ''-5'',
                               ''poll'' \<mapsto> QStr ''abc''))) = 5000 \<and>
   parseTimeoutMs test_env (query_request Map.empty) = 300000 \<and>
   parsePollIntervalMs test_env (query_request Map.empty) = 5000"
  using
    polling_parameters_clamped
      [where e = test_env and rw = "QStr ''10000000''" and rw' = "QStr ''100''"
         and req = "query_request (Map.empty(''timeoutMs'' \<mapsto> QStr ''10000000'',
                                            ''pollIntervalMs'' \<mapsto> QStr ''100''))"]
    polling_parameters_clamped
      [where e = test_env and rw = "QStr ''-5''" and rw' = "QStr ''abc''"
         and req = "query_request (Map.empty(''timeout'' \<mapsto> QStr ''-5'',
                                            ''poll'' \<mapsto> QStr ''abc''))"]
    polling_parameters_clamped
      [where e = test_env and req = "query_request Map.empty"]
  by (simp add: query_request_def nullish_def qget_def test_env_Number Number_decimal_def)

theorem interval_below_floor_counterexample:
  "NumberOfRaw test_env (QStr ''100'') = Fin 100 \<and>
   parsePollIntervalMs test_env
     (query_request (Map.empty(''pollIntervalMs'' \<mapsto> QStr ''100''))) \<noteq> 1000"
  by (simp add: parsePollIntervalMs_cases query_request_def nullish_def qget_def
      test_env_Number Number_decimal_def)

section \<open>Validation in simple mode\<close>

lemma dropWhile_all_iff: "(\<forall>c\<in>set (dropWhile P s). P c) \<longleftrightarrow> (\<forall>c\<in>set s. P c)"
proof
  assume a: "\<forall>c\<in>set (dropWhile P s). P c"
  have "dropWhile P s = []"
  proof (rule ccontr)
    assume n: "dropWhile P s \<noteq> []"
    then have "\<not> P (hd (dropWhile P s))" by (rule hd_dropWhile)
    moreover from n have "hd (dropWhile P s) \<in> set (dropWhile P s)" by simp
    ultimately show False using a by blast
  qed
  then show "\<forall>c\<in>set s. P c" by (simp add: dropWhile_eq_Nil_conv)
next
  assume "\<forall>c\<in>set s. P c"
  then show "\<forall>c\<in>set (dropWhile P s). P c" by (meson set_dropWhileD)
qed

lemma trim_empty_iff: "trim s = [] \<longleftrightarrow> (\<forall>c\<in>set s. is_space c)"
  unfolding trim_def by (simp add: dropWhile_eq_Nil_conv dropWhile_all_iff)

lemma superRefine_simple:
  "customMode v = False \<Longrightarrow>
   superRefine v = [] \<longleftrightarrow> trim (prompt v) \<noteq> [] \<and> length (prompt v) \<le> 400"
  by (auto simp: superRefine_def)

lemma superRefine_upload_simple:
  "customMode u = False \<Longrightarrow> superRefine_upload u = superRefine u"
  by (simp add: superRefine_upload_def)

lemma safeParse_Inr_iff: "safeParse b = Inr v \<longleftrightarrow> z_object b = Inr v \<and> superRefine v = []"
  by (auto simp: safeParse_def split: sum.splits)

lemma safeParse_upload_Inr_iff:
  "safeParse_upload b = Inr u \<longleftrightarrow> z_object_upload b = Inr u \<and> superRefine_upload u = []"
  by (auto simp: safeParse_upload_def split: sum.splits)

text \<open>
  C6, as the code has it. For every request with \<^verbatim>\<open>customMode = false\<close>, under the
  schema of \<^verbatim>\<open>index.ts\<close> and \<^verbatim>\<open>wait.ts\<close> and under that of \<^verbatim>\<open>wait-upload.ts\<close>, the
  refinement adds no issue (and so validation of a well-typed body succeeds) exactly
  when the prompt has a character that is not white space and is at most 400 long;
  the other fields, the upload path and file name included, have no effect on the
  issues.
\<close>

theorem simple_mode_validation:
  fixes v :: GenerationRequest and u :: UploadRequest
  assumes "customMode v = False" and "customMode u = False"
  shows
    "(superRefine v = [] \<longleftrightarrow>
        (\<exists>c\<in>set (prompt v). \<not> is_space c) \<and> length (prompt v) \<le> 400) \<and>
     (superRefine_upload u = [] \<longleftrightarrow>
        (\<exists>c\<in>set (prompt u). \<not> is_space c) \<and> length (prompt u) \<le> 400) \<and>
     (z_object b = Inr v \<longrightarrow>
        (safeParse b = Inr v \<longleftrightarrow>
           (\<exists>c\<in>set (prompt v). \<not> is_space c) \<and> length (prompt v) \<le> 400)) \<and>
     (z_object_upload b' = Inr u \<longrightarrow>
        (safeParse_upload b' = Inr u \<longleftrightarrow>
           (\<exists>c\<in>set (prompt u). \<not> is_space c) \<and> length (prompt u) \<le> 400)) \<and>
     superRefine (v\<lparr>instrumental := i, title := t, style := s, model := m, negativeTags := n\<rparr>)
       = superRefine v \<and>
     superRefine_upload
       (u\<lparr>instrumental := i, title := t, style := s, model := m, negativeTags := n,
          kieUploadPath := p, kieFileName := f\<rparr>)
       = superRefine_upload u"
proof -
  have 1: "superRefine v = [] \<longleftrightarrow>
        (\<exists>c\<in>set (prompt v). \<not> is_space c) \<and> length (prompt v) \<le> 400"
    using assms(1) by (simp add: superRefine_simple trim_empty_iff)
  have 2: "superRefine_upload u = [] \<longleftrightarrow>
        (\<exists>c\<in>set (prompt u). \<not> is_space c) \<and> length (prompt u) \<le> 400"
    using assms(2) by (simp add: superRefine_upload_simple superRefine_simple trim_empty_iff)
  have 3: "superRefine (v\<lparr>instrumental := i, title := t, style := s, model := m, negativeTags := n\<rparr>)
       = superRefine v"
    using assms(1) by (simp add: superRefine_def)
  have 4: "superRefine_upload
       (u\<lparr>instrumental := i, title := t, style := s, model := m, negativeTags := n,
          kieUploadPath := p, kieFileName := f\<rparr>)
       = superRefine_upload u"
    using assms(2) by (simp add: superRefine_upload_def superRefine_def)
  show ?thesis
    using 1 2 3 4 by (simp add: safeParse_Inr_iff safeParse_upload_Inr_iff)
qed

theorem simple_mode_validation_witness:
  "customMode blank_prompt = False \<and> customMode lofi_prompt = False \<and>
   superRefine blank_prompt \<noteq> [] \<and> superRefine_upload lofi_prompt = [] \<and>
   superRefine_upload (lofi_prompt\<lparr>instrumental := True, title := ''t'', style := ''s'',
      model := V4, negativeTags := ''n'', kieUploadPath := [], kieFileName := ''f''\<rparr>) = []"
  using simple_mode_validation
      [where v = blank_prompt and u = lofi_prompt and i = True and t = "''t''" and s = "''s''"
         and m = V4 and n = "''n''" and p = "[]" and f = "''f''"]
  by (simp add: blank_prompt_def lofi_prompt_def is_space_def)

text \<open>A prompt of three spaces is not empty and is shorter than 400, and is refused.\<close>

theorem blank_prompt_counterexample:
  "customMode blank_prompt = False \<and>
   \<not> (superRefine blank_prompt = [] \<longleftrightarrow>
        prompt blank_prompt \<noteq> [] \<and> length (prompt blank_prompt) \<le> 400)"
  by (simp add: blank_prompt_def superRefine_def trim_def is_space_def)


section \<open>The poll loop, round by round\<close>

lemma all_less_Suc_shift: "(\<forall>j<Suc n. P j) \<longleftrightarrow> P 0 \<and> (\<forall>j<n. P (Suc j))"
  by (auto simp: less_Suc_eq_0_disj)

lemma all_le_Suc_shift: "(\<forall>j\<le>Suc n. P j) \<longleftrightarrow> P 0 \<and> (\<forall>j\<le>n. P (Suc j))"
  by (metis Suc_le_mono le0 not0_implies_Suc)

lemma ex_nat_shift: "(\<exists>k. P k) \<longleftrightarrow> P 0 \<or> (\<exists>k. P (Suc k))"
  by (metis not0_implies_Suc)

lemma poll_loop_Cons_Response:
  "answer ev = Response r \<Longrightarrow>
   poll_loop B I s now l (ev # evs) =
     (if now - s < B then
        if is_done (json_or_null r) then Some (Done (json_or_null r), 1)
        else map_option (\<lambda>(res, n). (res, Suc n))
               (poll_loop B I s (now + of_nat (took ev) + I + of_nat (overslept ev))
                  (json_or_null r) evs)
      else Some (TimedOut l, 0))"
  by (simp add: Let_def)

lemma poll_loop_Cons_NetworkError:
  "answer ev = NetworkError m \<Longrightarrow>
   poll_loop B I s now l (ev # evs) =
     (if now - s < B then Some (Threw m, 1) else Some (TimedOut l, 0))"
  by simp

lemma poll_loop_Done_iff:
  "poll_loop B I s now l evs = Some (Done b, n) \<longleftrightarrow>
     (\<exists>k. n = Suc k \<and> k < length evs \<and> (\<forall>j<k. pending (evs ! j)) \<and>
          reading (evs ! k) = Some b \<and> is_done b \<and>
          (\<forall>j\<le>k. head_time I now evs j - s < B))"
proof (induction evs arbitrary: now l n)
  case Nil
  then show ?case by simp
next
  case (Cons ev evs)
  show ?case
  proof (cases "answer ev")
    case (NetworkError m)
    then show ?thesis
      apply (subst ex_nat_shift)
      apply (simp add: poll_loop_Cons_NetworkError reading_def pending_def all_less_Suc_shift all_le_Suc_shift)
      done
  next
    case (Response r)
    show ?thesis
      apply (subst ex_nat_shift)
      apply (simp add: poll_loop_Cons_Response [OF Response] Cons.IH reading_def pending_def
          all_less_Suc_shift all_le_Suc_shift Response del: poll_loop.simps)
      apply auto
      done
  qed
qed


lemma poll_loop_Threw_iff:
  "poll_loop B I s now l evs = Some (Threw m, n) \<longleftrightarrow>
     (\<exists>k. n = Suc k \<and> k < length evs \<and> (\<forall>j<k. pending (evs ! j)) \<and>
          answer (evs ! k) = NetworkError m \<and>
          (\<forall>j\<le>k. head_time I now evs j - s < B))"
proof (induction evs arbitrary: now l n)
  case Nil
  then show ?case by simp
next
  case (Cons ev evs)
  show ?case
  proof (cases "answer ev")
    case (NetworkError m')
    then show ?thesis
      apply (subst ex_nat_shift)
      apply (simp add: poll_loop_Cons_NetworkError pending_def all_less_Suc_shift all_le_Suc_shift)
      apply auto
      done
  next
    case (Response r)
    show ?thesis
      apply (subst ex_nat_shift)
      apply (simp add: poll_loop_Cons_Response [OF Response] Cons.IH pending_def
          all_less_Suc_shift all_le_Suc_shift Response del: poll_loop.simps)
      apply auto
      done
  qed
qed

lemma poll_loop_TimedOut_iff:
  "poll_loop B I s now l evs = Some (TimedOut b, n) \<longleftrightarrow>
     n \<le> length evs \<and> (\<forall>j<n. pending (evs ! j)) \<and>
     (\<forall>j<n. head_time I now evs j - s < B) \<and> \<not> head_time I now evs n - s < B \<and>
     (if n = 0 then b = l else reading (evs ! (n - 1)) = Some b)"
proof (induction evs arbitrary: now l n)
  case Nil
  then show ?case by auto
next
  case (Cons ev evs)
  show ?case
  proof (cases "answer ev")
    case (NetworkError m')
    then show ?thesis
      apply (cases n)
      apply (simp_all add: poll_loop_Cons_NetworkError pending_def all_less_Suc_shift)
      apply auto
      done
  next
    case (Response r)
    show ?thesis
    proof (cases n)
      case 0
      then show ?thesis
        by (auto simp add: poll_loop_Cons_Response [OF Response] simp del: poll_loop.simps)
    next
      case (Suc n')
      then show ?thesis
        apply (simp add: poll_loop_Cons_Response [OF Response] Cons.IH pending_def reading_def
          all_less_Suc_shift Response del: poll_loop.simps)
        apply (cases n')
         apply (auto simp: Response reading_def)
        done
    qed
  qed
qed

lemma poll_loop_None_iff:
  "poll_loop B I s now l evs = None \<longleftrightarrow>
     (\<forall>j<length evs. pending (evs ! j)) \<and> (\<forall>j\<le>length evs. head_time I now evs j - s < B)"
proof (induction evs arbitrary: now l)
  case Nil
  then show ?case by auto
next
  case (Cons ev evs)
  show ?case
  proof (cases "answer ev")
    case (NetworkError m')
    then show ?thesis
      by (auto simp add: poll_loop_Cons_NetworkError pending_def all_less_Suc_shift all_le_Suc_shift)
  next
    case (Response r)
    show ?thesis
      by (auto simp add: poll_loop_Cons_Response [OF Response] Cons.IH pending_def
          all_less_Suc_shift all_le_Suc_shift Response simp del: poll_loop.simps)
  qed
qed


lemma head_time_ideal:
  "\<forall>ev\<in>set evs. ideal ev \<Longrightarrow> k \<le> length evs \<Longrightarrow> head_time I now evs k = now + of_nat k * I"
proof (induction evs arbitrary: now k)
  case Nil
  then show ?case by simp
next
  case (Cons ev evs)
  then show ?case
    by (cases k) (simp_all add: ideal_def algebra_simps)
qed

lemma poll_loop_pending_step:
  assumes "pending ev" "now - s < B"
  shows "\<exists>b. reading ev = Some b \<and> \<not> is_done b \<and>
     poll_loop B I s now l (ev # evs) =
       map_option (\<lambda>(res, n). (res, Suc n))
         (poll_loop B I s (now + of_nat (took ev) + I + of_nat (overslept ev)) b evs)"
  using assms by (cases "answer ev") (simp_all add: pending_def reading_def Let_def)

lemma poll_loop_done_step:
  assumes "reading ev = Some b" "is_done b" "now - s < B"
  shows "poll_loop B I s now l (ev # evs) = Some (Done b, 1)"
  using assms by (cases "answer ev") (auto simp: reading_def Let_def)

lemma three_reads_done:
  assumes I: "0 < I" and B: "3 * I \<le> B" and e1: "pending e1" "ideal e1"
    and e2: "pending e2" "ideal e2" and e3: "reading e3 = Some b" "is_done b"
  shows "poll_loop B I s s l (e1 # e2 # e3 # rest) = Some (Done b, 3)"
proof -
  have t0: "s - s < B" and t1: "s + I - s < B" and t2: "s + I + I - s < B"
    using I B by simp_all
  obtain b1 where 1: "poll_loop B I s s l (e1 # e2 # e3 # rest) =
      map_option (\<lambda>(res, n). (res, Suc n)) (poll_loop B I s (s + I) b1 (e2 # e3 # rest))"
    using poll_loop_pending_step [OF e1(1) t0, of I l "e2 # e3 # rest"] e1(2)
    by (auto simp: ideal_def simp del: poll_loop.simps)
  obtain b2 where 2: "poll_loop B I s (s + I) b1 (e2 # e3 # rest) =
      map_option (\<lambda>(res, n). (res, Suc n)) (poll_loop B I s (s + I + I) b2 (e3 # rest))"
    using poll_loop_pending_step [OF e2(1) t1, of I b1 "e3 # rest"] e2(2)
    by (auto simp: ideal_def simp del: poll_loop.simps)
  have 3: "poll_loop B I s (s + I + I) b2 (e3 # rest) = Some (Done b, 1)"
    by (rule poll_loop_done_step [OF e3 t2])
  show ?thesis unfolding 1 2 3 by simp
qed

lemma never_done_times_out:
  assumes I: "0 < I" and all: "\<forall>ev\<in>set evs. pending ev \<and> ideal ev"
    and short: "B < of_nat (length evs) * I"
  shows "\<exists>b. poll_loop B I s s l evs = Some (TimedOut b, nat \<lceil>B / I\<rceil>)"
proof -
  let ?n = "nat \<lceil>B / I\<rceil>"
  have "B / I < of_nat (length evs)" using I short by (simp add: pos_divide_less_eq)
  then have "\<lceil>B / I\<rceil> \<le> int (length evs)" by (simp add: ceiling_le_iff)
  then have n_le: "?n \<le> length evs" by simp
  have ht: "head_time I s evs j = s + of_nat j * I" if "j \<le> length evs" for j
    using all that by (simp add: head_time_ideal)
  have in_budget: "head_time I s evs j - s < B" if "j < ?n" for j
  proof -
    from that have "int j < \<lceil>B / I\<rceil>" by simp
    then have "of_int (int j) < B / I" by (simp only: less_ceiling_iff)
    then have "of_nat j * I < B" using I by (simp add: pos_less_divide_eq)
    moreover have "j \<le> length evs" using that n_le by simp
    ultimately show ?thesis by (simp add: ht)
  qed
  have out: "\<not> head_time I s evs ?n - s < B"
  proof -
    have "B / I \<le> of_int \<lceil>B / I\<rceil>" by (rule le_of_int_ceiling)
    also have "of_int \<lceil>B / I\<rceil> \<le> (of_nat ?n :: rat)"
      by (metis of_int_of_nat_eq of_int_le_iff of_nat_nat nat_le_iff le_cases order_refl nat_0_iff int_nat_eq)
    finally have "B \<le> of_nat ?n * I" using I by (simp add: pos_divide_le_eq)
    then show ?thesis using n_le by (simp add: ht)
  qed
  have pend: "\<forall>j<?n. pending (evs ! j)" using all n_le by simp
  define b where "b = (if ?n = 0 then l else the (reading (evs ! (?n - 1))))"
  have "reading (evs ! (?n - 1)) = Some b" if "?n \<noteq> 0"
  proof -
    have "pending (evs ! (?n - 1))" using pend that by simp
    then show ?thesis using that by (auto simp: b_def pending_def reading_def split: fetched.splits)
  qed
  then have "poll_loop B I s s l evs = Some (TimedOut b, ?n)"
    unfolding poll_loop_TimedOut_iff
    using n_le pend in_budget out by (auto simp: b_def)
  then show ?thesis by blast
qed


text \<open>
  C5, as the code has it, on an ideal clock (a status read takes no time and a sleep
  lasts exactly the interval \<open>I > 0\<close>; the loop starts at \<open>s\<close>). When the first two
  reads are not a finished job (pending, processing) and the third is, and
  \<open>B \<ge> 3 I\<close>, the loop ends in its branch for a finished job after exactly 3 status
  reads. When no read is a finished job and \<open>B < N I\<close> for the \<open>N\<close> reads available,
  the loop times out after exactly \<open>\<lceil>B / I\<rceil>\<close> status reads: a round starts whenever
  the elapsed time \<open>k I\<close> is still below \<open>B\<close>. That is \<open>\<lfloor>B / I\<rfloor>\<close> when \<open>I\<close> divides
  \<open>B\<close>.
\<close>

theorem poll_counts_on_ideal_clock:
  assumes "0 < I"
  shows
    "(pending e1 \<and> ideal e1 \<and> pending e2 \<and> ideal e2 \<and> reading e3 = Some b \<and> is_done b \<and>
      3 * I \<le> B \<longrightarrow>
        poll_loop B I s s l (e1 # e2 # e3 # rest) = Some (Done b, 3)) \<and>
     ((\<forall>ev\<in>set evs. pending ev \<and> ideal ev) \<and> B < of_nat (length evs) * I \<longrightarrow>
        (\<exists>b'. poll_loop B I s s l evs = Some (TimedOut b', nat \<lceil>B / I\<rceil>))) \<and>
     ((\<exists>k::int. B = of_int k * I) \<longrightarrow> nat \<lceil>B / I\<rceil> = nat \<lfloor>B / I\<rfloor>)"
proof (intro conjI impI)
  assume "pending e1 \<and> ideal e1 \<and> pending e2 \<and> ideal e2 \<and> reading e3 = Some b \<and> is_done b \<and>
      3 * I \<le> B"
  then show "poll_loop B I s s l (e1 # e2 # e3 # rest) = Some (Done b, 3)"
    using three_reads_done [OF assms] by blast
next
  assume "(\<forall>ev\<in>set evs. pending ev \<and> ideal ev) \<and> B < of_nat (length evs) * I"
  then show "\<exists>b'. poll_loop B I s s l evs = Some (TimedOut b', nat \<lceil>B / I\<rceil>)"
    using never_done_times_out [OF assms] by blast
next
  assume "\<exists>k::int. B = of_int k * I"
  then obtain k :: int where "B = of_int k * I" by blast
  then have "B / I = of_int k" using assms by simp
  then show "nat \<lceil>B / I\<rceil> = nat \<lfloor>B / I\<rfloor>" by simp
qed

lemma example_reads:
  "pending pending_read" "pending processing_read" "ideal pending_read" "ideal processing_read"
  "reading pending_read = Some (status_body False ''pending'')"
  "reading done_read = Some (status_body True ''done'')" "is_done (status_body True ''done'')"
  "took pending_read = 0" "overslept pending_read = 0"
  by (simp_all add: pending_def ideal_def reading_def pending_read_def processing_read_def
      done_read_def read_of_def status_body_def json_or_null_def is_done_def)

theorem poll_counts_on_ideal_clock_witness:
  "(0::rat) < 1000 \<and>
   poll_loop 3000 1000 0 0 JNull [pending_read, processing_read, done_read] =
     Some (Done (status_body True ''done''), 3) \<and>
   (\<exists>b'. poll_loop 2500 1000 0 0 JNull [pending_read, pending_read, pending_read] =
     Some (TimedOut b', 3))"
proof -
  have I: "(0::rat) < 1000" by simp
  have "\<lceil>(5::rat) / 2\<rceil> = 3" by linarith
  then have c: "nat \<lceil>(5::rat) / 2\<rceil> = 3" by simp
  show ?thesis
    using I
      poll_counts_on_ideal_clock [OF I, where ?e1.0 = pending_read and ?e2.0 = processing_read
        and ?e3.0 = done_read and b = "status_body True ''done''" and B = 3000 and rest = "[]"
        and s = 0 and l = JNull and evs = "[]"]
      poll_counts_on_ideal_clock [OF I, where evs = "[pending_read, pending_read, pending_read]"
        and B = 2500 and s = 0 and l = JNull]
    by (simp add: example_reads c)
qed

text \<open>With a budget of 2500 and an interval of 1000, three reads are made (at 0, 1000
  and 2000) before the time-out, not \<open>\<lfloor>2500 / 1000\<rfloor> = 2\<close>. And off the ideal clock the
  first half fails too: when every read takes a second, a budget of three intervals
  is used up after two reads (at 0 and 2000), before the finished job is seen.\<close>

theorem floor_poll_count_counterexample:
  "pending pending_read \<and> ideal pending_read \<and>
   (2500::rat) < of_nat (length [pending_read, pending_read, pending_read]) * 1000 \<and>
   poll_loop 2500 1000 0 0 JNull [pending_read, pending_read, pending_read] =
     Some (TimedOut (status_body False ''pending''), 3) \<and>
   nat \<lfloor>(2500::rat) / 1000\<rfloor> \<noteq> 3 \<and>
   (3::rat) * 1000 \<le> 3000 \<and>
   poll_loop 3000 1000 0 0 JNull [slow pending_read, slow processing_read, slow done_read] =
     Some (TimedOut (status_body False ''processing''), 2)"
proof -
  have slow: "poll_loop 3000 1000 0 0 JNull
      [slow pending_read, slow processing_read, slow done_read] =
     Some (TimedOut (status_body False ''processing''), 2)"
    by (simp add: slow_def pending_read_def processing_read_def done_read_def read_of_def
        json_or_null_def is_done_def status_body_def)
  have f: "\<lfloor>(2500::rat) / 1000\<rfloor> = 2" by linarith
  have p: "poll_loop 2500 1000 0 0 JNull [pending_read, pending_read, pending_read] =
     Some (TimedOut (status_body False ''pending''), 3)"
    unfolding poll_loop_TimedOut_iff
    by (simp add: example_reads all_less_Suc_shift numeral_3_eq_3)
  have q: "nat \<lfloor>(2500::rat) / 1000\<rfloor> \<noteq> 3" unfolding f by simp
  have a: "pending pending_read \<and> ideal pending_read"
    by (simp add: example_reads)
  have b: "(2500::rat) < of_nat (length [pending_read, pending_read, pending_read]) * 1000"
    by simp
  show ?thesis using a b p q slow by simp
qed


section \<open>The handlers past the launch\<close>

lemma handler_wait_launched:
  assumes "http_method req = ''POST''" "readJsonBody req = Inr b" "safeParse b = Inr parsed"
    "getApiKey e = Inr apiKey"
    "launch w (start_call apiKey (payloadToUpstream parsed)) = Response startResp"
    "ok startResp" "jget (json_or_null startResp) ''jobId'' = Some jobId" "truthy jobId"
  shows "handler_wait e w req =
     (case poll_loop (parseTimeoutMs e req) (parsePollIntervalMs e req) (clock w) (clock w)
             JNull (polls w) of
        None \<Rightarrow> None
      | Some (Done statusJson, n) \<Rightarrow>
          Some (json 200 (normalizeAuthor statusJson),
                start_call apiKey (payloadToUpstream parsed) #
                replicate n (status_call e apiKey (task_url_of e (json_or_null startResp) jobId)))
      | Some (TimedOut lastJson, n) \<Rightarrow>
          Some (timed_out jobId (task_url_of e (json_or_null startResp) jobId) lastJson,
                start_call apiKey (payloadToUpstream parsed) #
                replicate n (status_call e apiKey (task_url_of e (json_or_null startResp) jobId)))
      | Some (Threw m, n) \<Rightarrow>
          Some (internal_error m,
                start_call apiKey (payloadToUpstream parsed) #
                replicate n (status_call e apiKey (task_url_of e (json_or_null startResp) jobId))))"
  unfolding handler_wait_def using assms
  by (simp add: Let_def del: poll_loop.simps)

lemma handler_wait_start_failed:
  assumes "http_method req = ''POST''" "readJsonBody req = Inr b" "safeParse b = Inr parsed"
    "getApiKey e = Inr apiKey"
    "launch w (start_call apiKey (payloadToUpstream parsed)) = Response startResp"
    "\<not> (ok startResp \<and> truthy_opt (jget (json_or_null startResp) ''jobId''))"
  shows "handler_wait e w req =
     Some (start_failed startResp (json_or_null startResp),
           [start_call apiKey (payloadToUpstream parsed)])"
  unfolding handler_wait_def using assms
  by (auto simp add: Let_def truthy_opt_def simp del: poll_loop.simps split: option.splits)

lemma handler_wait_upload_launched:
  assumes "http_method req = ''POST''" "readJsonBody req = Inr b"
    "safeParse_upload b = Inr parsed" "getApiKey e = Inr apiKey"
    "launch w (start_call apiKey (payloadToUpstream parsed)) = Response startResp"
    "ok startResp" "jget (json_or_null startResp) ''jobId'' = Some jobId" "truthy jobId"
  shows "handler_wait_upload e w req =
     (case poll_loop (parseTimeoutMs e req) (parsePollIntervalMs e req) (clock w) (clock w)
             JNull (polls w) of
        None \<Rightarrow> None
      | Some (Done statusJson, n) \<Rightarrow>
          (case upload_all e w parsed jobId (records_of statusJson) of
             (None, cs) \<Rightarrow> None
           | (Some (Rejected m), cs) \<Rightarrow>
               Some (internal_error m,
                     start_call apiKey (payloadToUpstream parsed) #
                     replicate n (status_call e apiKey
                        (task_url_of e (json_or_null startResp) jobId)) @ cs)
           | (Some (Fulfilled uploads), cs) \<Rightarrow>
               Some (json 200 (normalizeAuthor
                       (JObj (obj_spread (own_props statusJson)
                          [(''jobId'', jobId),
                           (''task_url'', task_url_of e (json_or_null startResp) jobId),
                           (''kieUploads'', JArr uploads)]))),
                     start_call apiKey (payloadToUpstream parsed) #
                     replicate n (status_call e apiKey
                        (task_url_of e (json_or_null startResp) jobId)) @ cs))
      | Some (TimedOut lastJson, n) \<Rightarrow>
          Some (timed_out jobId (task_url_of e (json_or_null startResp) jobId) lastJson,
                start_call apiKey (payloadToUpstream parsed) #
                replicate n (status_call e apiKey (task_url_of e (json_or_null startResp) jobId)))
      | Some (Threw m, n) \<Rightarrow>
          Some (internal_error m,
                start_call apiKey (payloadToUpstream parsed) #
                replicate n (status_call e apiKey (task_url_of e (json_or_null startResp) jobId))))"
  unfolding handler_wait_upload_def using assms
  by (simp add: Let_def del: poll_loop.simps)

lemma handler_wait_upload_start_failed:
  assumes "http_method req = ''POST''" "readJsonBody req = Inr b"
    "safeParse_upload b = Inr parsed" "getApiKey e = Inr apiKey"
    "launch w (start_call apiKey (payloadToUpstream parsed)) = Response startResp"
    "\<not> (ok startResp \<and> truthy_opt (jget (json_or_null startResp) ''jobId''))"
  shows "handler_wait_upload e w req =
     Some (start_failed startResp (json_or_null startResp),
           [start_call apiKey (payloadToUpstream parsed)])"
  unfolding handler_wait_upload_def using assms
  by (auto simp add: Let_def truthy_opt_def simp del: poll_loop.simps split: option.splits)

lemma handler_generate_answered:
  assumes "http_method req = ''POST''" "readJsonBody req = Inr b" "safeParse b = Inr parsed"
    "getApiKey e = Inr apiKey"
    "launch w (start_call apiKey (payloadToUpstream parsed)) = Response startResp"
  shows "handler_generate e w req =
     (if \<not> ok startResp then
        (json 502 (normalizeAuthor
           (JObj [(''ok'', JBool False), (''message'', JStr ''Upstream error''),
                  (''status'', JNum (of_nat (status startResp))),
                  (''upstream'', json_or_null startResp)])),
         [start_call apiKey (payloadToUpstream parsed)])
      else (json 200 (normalizeAuthor (json_or_null startResp)),
            [start_call apiKey (payloadToUpstream parsed)]))"
  unfolding handler_generate_def using assms
  by (simp add: Let_def)


section \<open>Fields of the replies\<close>

lemma map_of_filter_fst:
  "map_of (filter (\<lambda>(k, v). P k) kvs) k = (if P k then map_of kvs k else None)"
  by (induction kvs) auto

lemma map_of_map_value:
  "map_of (map (\<lambda>(k, v). (k, f k v)) kvs) k = map_option (f k) (map_of kvs k)"
  by (induction kvs) auto

lemma map_of_obj_spread:
  "map_of (obj_spread base kvs) k =
     (case map_of base k of
        None \<Rightarrow> map_of kvs k
      | Some v \<Rightarrow> Some (case map_of kvs k of None \<Rightarrow> v | Some v' \<Rightarrow> v'))"
  unfolding obj_spread_def
  by (simp add: map_add_def map_of_filter_fst map_of_map_value split: option.splits)

lemma jget_normalizeAuthor:
  "jget (normalizeAuthor (JObj kvs)) k =
     (if k = ''Author'' then Some (case map_of kvs ''Author'' of None \<Rightarrow> JStr AUTHOR | Some v \<Rightarrow> v)
      else if k = ''creator'' then None
      else map_of kvs k)"
  by (simp add: map_of_obj_spread map_of_filter_fst split: option.splits)

lemma timed_out_fields:
  "statusCode (timed_out jobId taskUrl lastJson) = 408 \<and>
   (\<exists>body. sent (timed_out jobId taskUrl lastJson) = Some body \<and>
      jget body ''jobId'' = Some jobId \<and> jget body ''task_url'' = Some taskUrl \<and>
      jget body ''lastResponse'' = Some lastJson)"
  unfolding timed_out_def json_def by (simp add: jget_normalizeAuthor del: normalizeAuthor.simps)

lemma start_failed_fields:
  "statusCode (start_failed startResp startJson) = 502 \<and>
   (\<exists>body. sent (start_failed startResp startJson) = Some body \<and>
      jget body ''status'' = Some (JNum (of_nat (status startResp))) \<and>
      jget body ''upstream'' = Some startJson)"
  unfolding start_failed_def json_def by (simp add: jget_normalizeAuthor del: normalizeAuthor.simps)

lemma reply_codes:
  "statusCode (json c v) = c" "statusCode (internal_error m) = 500"
  "statusCode (timed_out j t l) = 408" "statusCode (start_failed r sj) = 502"
  by (simp_all add: json_def internal_error_def timed_out_def start_failed_def)


section \<open>The example scenario, evaluated\<close>

lemma lofi_request_facts:
  "http_method lofi_request = ''POST''"
  "readJsonBody lofi_request = Inr lofi_body"
  "parseTimeoutMs test_env lofi_request = 3000"
  "parsePollIntervalMs test_env lofi_request = 1000"
  by (simp_all add: lofi_request_def readJsonBody_def parseTimeoutMs_cases
      parsePollIntervalMs_cases nullish_def qget_def test_env_Number Number_decimal_def)

lemma lofi_z_object: "z_object lofi_body = Inr lofi_simple"
  by (simp add: z_object_def lofi_body_def lofi_simple_def z_boolean_def z_boolean_default_def
      z_string_default_def z_enum_default_def)

lemma lofi_superRefine: "superRefine lofi_simple = []" "superRefine_upload lofi_prompt = []"
  by (simp_all add: superRefine_upload_def superRefine_def lofi_simple_def lofi_prompt_def
      trim_empty_iff is_space_def)

lemma lofi_safeParse: "safeParse lofi_body = Inr lofi_simple"
  by (simp add: safeParse_def lofi_z_object lofi_superRefine)

lemma lofi_z_object_upload: "z_object_upload lofi_body = Inr lofi_prompt"
proof -
  have "z_object (JObj [(''customMode'', JBool False), (''prompt'', JStr ''lofi chill beat'')])
      = Inr lofi_simple"
    using lofi_z_object by (simp add: lofi_body_def)
  then show ?thesis
    by (simp add: z_object_upload_def lofi_body_def z_string_default_def lofi_simple_def
        lofi_prompt_def GenerationRequest.extend_def UploadRequest.fields_def)
qed

lemma lofi_safeParse_upload: "safeParse_upload lofi_body = Inr lofi_prompt"
  by (simp add: safeParse_upload_def lofi_z_object_upload lofi_superRefine)

lemma test_env_keys:
  "getApiKey test_env = Inr ''pax-key''" "getKieApiKey test_env = Inr ''kie-key''"
  by (simp_all add: getApiKey_def getKieApiKey_def test_env_def)

lemma example_world_facts:
  "launch (example_world st evs) c = Response st"
  "polls (example_world st evs) = evs"
  "clock (example_world st evs) = 0"
  "kie (example_world st evs) = second_refused"
  "completion (example_world st evs) = [2, 0, 1]"
  by (simp_all add: example_world_def)

lemma abc_job_facts:
  "ok (job_started v)" "json_or_null (job_started v) = v"
  "jget abc_job ''jobId'' = Some (JStr ''abc'')" "truthy (JStr ''abc'')"
  "task_url_of e abc_job j = JStr ''https://api.paxsenix.org/task/abc''"
  by (simp_all add: ok_def job_started_def json_or_null_def abc_job_def task_url_of_def
      truthy_opt_def)


section \<open>The time-out reply\<close>

lemma timed_out_after_a_read:
  assumes "poll_loop B I s s l evs = Some (TimedOut lastJson, n)" "0 < B"
  shows "0 < n \<and> n \<le> length evs \<and> reading (evs ! (n - 1)) = Some lastJson \<and>
         \<not> head_time I s evs n - s < B"
proof -
  from assms(1) have *: "n \<le> length evs" "\<not> head_time I s evs n - s < B"
    "if n = 0 then lastJson = l else reading (evs ! (n - 1)) = Some lastJson"
    unfolding poll_loop_TimedOut_iff by blast+
  have "n \<noteq> 0" using *(2) assms(2) by (cases n) auto
  then show ?thesis using * by simp
qed

text \<open>
  C7. Take a request to the wait or to the wait-upload flow that passed validation and
  whose launch succeeded with job \<open>jobId\<close> and status address \<open>taskUrl\<close>. When the
  poll loop leaves at its exit test after \<open>n\<close> status reads, with \<open>lastJson\<close> the
  value of \<^verbatim>\<open>last\<close>, the flow answers 408 with a body that carries \<open>jobId\<close>, \<open>taskUrl\<close>
  (the address the status reads were sent to) and \<open>lastJson\<close>; at least one read was
  made, \<open>lastJson\<close> is the decoded body of the last of them, and the budget was used
  up at the head of the round that was not run.
\<close>

theorem timeout_reply_resumable:
  fixes e :: "'a env_scheme" and w :: "'b world_scheme"
  assumes req: "http_method req = ''POST''" "readJsonBody req = Inr b"
    and key: "getApiKey e = Inr apiKey"
    and started: "ok startResp" "jget (json_or_null startResp) ''jobId'' = Some jobId"
      "truthy jobId" "taskUrl = task_url_of e (json_or_null startResp) jobId"
    and exhausted: "poll_loop (parseTimeoutMs e req) (parsePollIntervalMs e req) (clock w) (clock w)
        JNull (polls w) = Some (TimedOut lastJson, n)"
  shows
    "(\<forall>parsed :: GenerationRequest.
        safeParse b = Inr parsed \<and>
        launch w (start_call apiKey (payloadToUpstream parsed)) = Response startResp \<longrightarrow>
        handler_wait e w req =
          Some (timed_out jobId taskUrl lastJson,
                start_call apiKey (payloadToUpstream parsed) #
                replicate n (status_call e apiKey taskUrl))) \<and>
     (\<forall>parsed :: UploadRequest.
        safeParse_upload b = Inr parsed \<and>
        launch w (start_call apiKey (payloadToUpstream parsed)) = Response startResp \<longrightarrow>
        handler_wait_upload e w req =
          Some (timed_out jobId taskUrl lastJson,
                start_call apiKey (payloadToUpstream parsed) #
                replicate n (status_call e apiKey taskUrl))) \<and>
     statusCode (timed_out jobId taskUrl lastJson) = 408 \<and>
     (\<exists>body. sent (timed_out jobId taskUrl lastJson) = Some body \<and>
        jget body ''jobId'' = Some jobId \<and> jget body ''task_url'' = Some taskUrl \<and>
        jget body ''lastResponse'' = Some lastJson) \<and>
     0 < n \<and> n \<le> length (polls w) \<and> reading (polls w ! (n - 1)) = Some lastJson \<and>
     \<not> head_time (parsePollIntervalMs e req) (clock w) (polls w) n - clock w
         < parseTimeoutMs e req"
proof -
  have "0 < parseTimeoutMs e req" using parseTimeoutMs_range by blast
  from timed_out_after_a_read [OF exhausted this]
  have last: "0 < n \<and> n \<le> length (polls w) \<and> reading (polls w ! (n - 1)) = Some lastJson \<and>
     \<not> head_time (parsePollIntervalMs e req) (clock w) (polls w) n - clock w
         < parseTimeoutMs e req" .
  have 1: "handler_wait e w req =
          Some (timed_out jobId taskUrl lastJson,
                start_call apiKey (payloadToUpstream parsed) #
                replicate n (status_call e apiKey taskUrl))"
    if "safeParse b = Inr parsed"
      "launch w (start_call apiKey (payloadToUpstream parsed)) = Response startResp"
    for parsed :: GenerationRequest
    using handler_wait_launched [OF req that(1) key that(2) started(1,2,3)] exhausted
    by (simp add: started(4))
  have 2: "handler_wait_upload e w req =
          Some (timed_out jobId taskUrl lastJson,
                start_call apiKey (payloadToUpstream parsed) #
                replicate n (status_call e apiKey taskUrl))"
    if "safeParse_upload b = Inr parsed"
      "launch w (start_call apiKey (payloadToUpstream parsed)) = Response startResp"
    for parsed :: UploadRequest
    using handler_wait_upload_launched [OF req that(1) key that(2) started(1,2,3)] exhausted
    by (simp add: started(4))
  show ?thesis
    using 1 2 last timed_out_fields [of jobId taskUrl lastJson] by blast
qed

lemma three_pending_time_out:
  "poll_loop 3000 1000 0 0 JNull [pending_read, pending_read, processing_read] =
     Some (TimedOut (status_body False ''processing''), 3)"
  unfolding poll_loop_TimedOut_iff
  by (simp add: all_less_Suc_shift numeral_3_eq_3 pending_def reading_def pending_read_def
      processing_read_def read_of_def json_or_null_def is_done_def status_body_def)

theorem timeout_reply_resumable_witness:
  "handler_wait test_env
      (example_world (job_started abc_job) [pending_read, pending_read, processing_read])
      lofi_request =
     Some (timed_out (JStr ''abc'') (JStr ''https://api.paxsenix.org/task/abc'')
             (status_body False ''processing''),
           start_call ''pax-key'' (payloadToUpstream lofi_simple) #
           replicate 3 (status_call test_env ''pax-key''
                          (JStr ''https://api.paxsenix.org/task/abc''))) \<and>
   handler_wait_upload test_env
      (example_world (job_started abc_job) [pending_read, pending_read, processing_read])
      lofi_request =
     Some (timed_out (JStr ''abc'') (JStr ''https://api.paxsenix.org/task/abc'')
             (status_body False ''processing''),
           start_call ''pax-key'' (payloadToUpstream lofi_prompt) #
           replicate 3 (status_call test_env ''pax-key''
                          (JStr ''https://api.paxsenix.org/task/abc'')))"
proof -
  let ?w = "example_world (job_started abc_job) [pending_read, pending_read, processing_read]"
  have ex: "poll_loop (parseTimeoutMs test_env lofi_request)
      (parsePollIntervalMs test_env lofi_request) (clock ?w) (clock ?w) JNull (polls ?w) =
      Some (TimedOut (status_body False ''processing''), 3)"
    by (simp only: lofi_request_facts example_world_facts three_pending_time_out)
  have st: "jget (json_or_null (job_started abc_job)) ''jobId'' = Some (JStr ''abc'')"
    by (simp add: abc_job_facts)
  have tu: "JStr ''https://api.paxsenix.org/task/abc'' =
      task_url_of test_env (json_or_null (job_started abc_job)) (JStr ''abc'')"
    by (simp add: abc_job_facts)
  show ?thesis
    using timeout_reply_resumable [OF lofi_request_facts(1,2) test_env_keys(1)
        abc_job_facts(1) st abc_job_facts(4) tu ex]
    by (simp add: lofi_safeParse lofi_safeParse_upload example_world_facts)
qed


section \<open>Launch, status reads and success\<close>

lemma handler_wait_launched_code:
  assumes "http_method req = ''POST''" "readJsonBody req = Inr b" "safeParse b = Inr parsed"
    "getApiKey e = Inr apiKey"
    "launch w (start_call apiKey (payloadToUpstream parsed)) = Response startResp"
    "ok startResp" "jget (json_or_null startResp) ''jobId'' = Some jobId" "truthy jobId"
    "handler_wait e w req = Some (rep, tr)"
  shows "(statusCode rep = 200 \<and>
           (\<exists>sj n. poll_loop (parseTimeoutMs e req) (parsePollIntervalMs e req) (clock w)
                     (clock w) JNull (polls w) = Some (Done sj, n) \<and>
                   rep = json 200 (normalizeAuthor sj))) \<or>
         (statusCode rep = 408 \<and>
           (\<exists>lj n. poll_loop (parseTimeoutMs e req) (parsePollIntervalMs e req) (clock w)
                     (clock w) JNull (polls w) = Some (TimedOut lj, n))) \<or>
         (statusCode rep = 500 \<and>
           (\<exists>m n. poll_loop (parseTimeoutMs e req) (parsePollIntervalMs e req) (clock w)
                     (clock w) JNull (polls w) = Some (Threw m, n)))"
  using assms(9) unfolding handler_wait_launched [OF assms(1-8)]
  by (auto simp: reply_codes split: option.splits poll_result.splits prod.splits)

lemma handler_wait_upload_launched_code:
  assumes "http_method req = ''POST''" "readJsonBody req = Inr b"
    "safeParse_upload b = Inr parsed" "getApiKey e = Inr apiKey"
    "launch w (start_call apiKey (payloadToUpstream parsed)) = Response startResp"
    "ok startResp" "jget (json_or_null startResp) ''jobId'' = Some jobId" "truthy jobId"
    "handler_wait_upload e w req = Some (rep, tr)"
  shows "(statusCode rep = 200 \<and>
           (\<exists>sj n. poll_loop (parseTimeoutMs e req) (parsePollIntervalMs e req) (clock w)
                     (clock w) JNull (polls w) = Some (Done sj, n))) \<or>
         (statusCode rep = 408 \<and>
           (\<exists>lj n. poll_loop (parseTimeoutMs e req) (parsePollIntervalMs e req) (clock w)
                     (clock w) JNull (polls w) = Some (TimedOut lj, n))) \<or>
         statusCode rep = 500"
  using assms(9) unfolding handler_wait_upload_launched [OF assms(1-8)]
  by (auto simp: reply_codes split: option.splits poll_result.splits prod.splits settled.splits)


text \<open>
  C3, as the code has it. Take a request that passed validation, with the generation
  key configured, whose launch was answered by the response \<open>startResp\<close>. In the wait
  and the wait-upload flow the launch counts as successful only when the status is
  2xx and the decoded body has a truthy \<^verbatim>\<open>jobId\<close>: otherwise the flow answers 502 with
  the upstream status and the decoded upstream body (\<^verbatim>\<open>null\<close> when it does not
  decode) and sends nothing else; when both hold, it never answers 502. The generate
  flow (\<^verbatim>\<open>index.ts\<close>) forwards the upstream answer: 502 with status and decoded body
  when the status is not 2xx, and otherwise 200 with the normalised upstream body,
  whether or not it has a \<^verbatim>\<open>jobId\<close>.
\<close>

theorem launch_outcomes:
  fixes e :: "'a env_scheme" and w :: "'b world_scheme"
  assumes "http_method req = ''POST''" "readJsonBody req = Inr b" "getApiKey e = Inr apiKey"
  shows
    "(\<forall>(parsed :: GenerationRequest) startResp.
        safeParse b = Inr parsed \<and>
        launch w (start_call apiKey (payloadToUpstream parsed)) = Response startResp \<longrightarrow>
        (\<not> (ok startResp \<and> truthy_opt (jget (json_or_null startResp) ''jobId'')) \<longrightarrow>
           handler_wait e w req =
             Some (start_failed startResp (json_or_null startResp),
                   [start_call apiKey (payloadToUpstream parsed)])) \<and>
        (ok startResp \<and> truthy_opt (jget (json_or_null startResp) ''jobId'') \<longrightarrow>
           (\<forall>rep tr. handler_wait e w req = Some (rep, tr) \<longrightarrow> statusCode rep \<noteq> 502)) \<and>
        (\<not> ok startResp \<longrightarrow>
           (\<exists>body. handler_generate e w req =
                     (json 502 body, [start_call apiKey (payloadToUpstream parsed)]) \<and>
                   jget body ''status'' = Some (JNum (of_nat (status startResp))) \<and>
                   jget body ''upstream'' = Some (json_or_null startResp))) \<and>
        (ok startResp \<longrightarrow>
           handler_generate e w req =
             (json 200 (normalizeAuthor (json_or_null startResp)),
              [start_call apiKey (payloadToUpstream parsed)]))) \<and>
     (\<forall>(parsed :: UploadRequest) startResp.
        safeParse_upload b = Inr parsed \<and>
        launch w (start_call apiKey (payloadToUpstream parsed)) = Response startResp \<longrightarrow>
        (\<not> (ok startResp \<and> truthy_opt (jget (json_or_null startResp) ''jobId'')) \<longrightarrow>
           handler_wait_upload e w req =
             Some (start_failed startResp (json_or_null startResp),
                   [start_call apiKey (payloadToUpstream parsed)])) \<and>
        (ok startResp \<and> truthy_opt (jget (json_or_null startResp) ''jobId'') \<longrightarrow>
           (\<forall>rep tr. handler_wait_upload e w req = Some (rep, tr) \<longrightarrow> statusCode rep \<noteq> 502))) \<and>
     (\<forall>startResp sj.
        statusCode (start_failed startResp sj) = 502 \<and>
        (\<exists>body. sent (start_failed startResp sj) = Some body \<and>
           jget body ''status'' = Some (JNum (of_nat (status startResp))) \<and>
           jget body ''upstream'' = Some sj))"
proof (intro conjI allI impI; (elim conjE)?)
  fix parsed :: GenerationRequest and startResp
  assume p: "safeParse b = Inr parsed"
    and l: "launch w (start_call apiKey (payloadToUpstream parsed)) = Response startResp"
  note base = assms(1,2) p assms(3) l
  {
    assume "\<not> (ok startResp \<and> truthy_opt (jget (json_or_null startResp) ''jobId''))"
    then show "handler_wait e w req =
             Some (start_failed startResp (json_or_null startResp),
                   [start_call apiKey (payloadToUpstream parsed)])"
      by (rule handler_wait_start_failed [OF base])
  next
    fix rep tr
    assume o: "ok startResp" and t: "truthy_opt (jget (json_or_null startResp) ''jobId'')"
      and h: "handler_wait e w req = Some (rep, tr)"
    from t obtain jobId where j: "jget (json_or_null startResp) ''jobId'' = Some jobId"
      "truthy jobId"
      by (auto simp: truthy_opt_def split: option.splits)
    from handler_wait_launched_code [OF base o j h]
    show "statusCode rep \<noteq> 502" by auto
  next
    assume "\<not> ok startResp"
    then show "\<exists>body. handler_generate e w req =
                     (json 502 body, [start_call apiKey (payloadToUpstream parsed)]) \<and>
                   jget body ''status'' = Some (JNum (of_nat (status startResp))) \<and>
                   jget body ''upstream'' = Some (json_or_null startResp)"
      unfolding handler_generate_answered [OF base]
      by (intro exI [where x = "normalizeAuthor
           (JObj [(''ok'', JBool False), (''message'', JStr ''Upstream error''),
                  (''status'', JNum (of_nat (status startResp))),
                  (''upstream'', json_or_null startResp)])"])
         (simp add: jget_normalizeAuthor del: normalizeAuthor.simps)
  next
    assume "ok startResp"
    then show "handler_generate e w req =
             (json 200 (normalizeAuthor (json_or_null startResp)),
              [start_call apiKey (payloadToUpstream parsed)])"
      unfolding handler_generate_answered [OF base] by simp
  }
next
  fix parsed :: UploadRequest and startResp
  assume p: "safeParse_upload b = Inr parsed"
    and l: "launch w (start_call apiKey (payloadToUpstream parsed)) = Response startResp"
  note base = assms(1,2) p assms(3) l
  {
    assume "\<not> (ok startResp \<and> truthy_opt (jget (json_or_null startResp) ''jobId''))"
    then show "handler_wait_upload e w req =
             Some (start_failed startResp (json_or_null startResp),
                   [start_call apiKey (payloadToUpstream parsed)])"
      by (rule handler_wait_upload_start_failed [OF base])
  next
    fix rep tr
    assume o: "ok startResp" and t: "truthy_opt (jget (json_or_null startResp) ''jobId'')"
      and h: "handler_wait_upload e w req = Some (rep, tr)"
    from t obtain jobId where j: "jget (json_or_null startResp) ''jobId'' = Some jobId"
      "truthy jobId"
      by (auto simp: truthy_opt_def split: option.splits)
    from handler_wait_upload_launched_code [OF base o j h]
    show "statusCode rep \<noteq> 502" by auto
  }
next
  fix startResp sj
  show "statusCode (start_failed startResp sj) = 502"
    using start_failed_fields by blast
  show "\<exists>body. sent (start_failed startResp sj) = Some body \<and>
           jget body ''status'' = Some (JNum (of_nat (status startResp))) \<and>
           jget body ''upstream'' = Some sj"
    using start_failed_fields by blast
qed


lemma no_job_id: "\<not> truthy_opt (jget (json_or_null (job_started (JObj []))) ''jobId'')"
  by (simp add: truthy_opt_def abc_job_facts)

theorem launch_outcomes_witness:
  "handler_wait test_env (example_world (job_started (JObj [])) []) lofi_request =
     Some (start_failed (job_started (JObj [])) (JObj []),
           [start_call ''pax-key'' (payloadToUpstream lofi_simple)]) \<and>
   handler_wait_upload test_env (example_world (job_started (JObj [])) []) lofi_request =
     Some (start_failed (job_started (JObj [])) (JObj []),
           [start_call ''pax-key'' (payloadToUpstream lofi_prompt)]) \<and>
   handler_generate test_env (example_world (job_started (JObj [])) []) lofi_request =
     (json 200 (normalizeAuthor (JObj [])), [start_call ''pax-key'' (payloadToUpstream lofi_simple)]) \<and>
   statusCode (start_failed (job_started (JObj [])) (JObj [])) = 502"
  using launch_outcomes [OF lofi_request_facts(1,2) test_env_keys(1),
      where w = "example_world (job_started (JObj [])) []"]
    lofi_safeParse lofi_safeParse_upload no_job_id
  by (simp add: example_world_facts abc_job_facts)

text \<open>The generate flow answers 200 to an upstream \<^verbatim>\<open>200 {}\<close>, which has no
  \<^verbatim>\<open>jobId\<close>.\<close>

theorem generate_without_job_id_counterexample:
  "ok (job_started (JObj [])) \<and>
   \<not> truthy_opt (jget (json_or_null (job_started (JObj []))) ''jobId'') \<and>
   handler_generate test_env (example_world (job_started (JObj [])) []) lofi_request =
     (json 200 (normalizeAuthor (JObj [])),
      [start_call ''pax-key'' (payloadToUpstream lofi_simple)]) \<and>
   statusCode (json 200 (normalizeAuthor (JObj []))) \<noteq> 502"
  using handler_generate_answered [OF lofi_request_facts(1,2) lofi_safeParse test_env_keys(1)
      example_world_facts(1), of "job_started (JObj [])" "[]"] no_job_id
  by (simp add: abc_job_facts reply_codes del: normalizeAuthor.simps)

lemma restatus_fields:
  "took (restatus f ev) = took ev" "overslept (restatus f ev) = overslept ev"
  "answer (restatus f ev) =
     (case answer ev of
        NetworkError m \<Rightarrow> NetworkError m
      | Response r \<Rightarrow> Response (r\<lparr>status := f (status r)\<rparr>))"
  by (simp_all add: restatus_def split: fetched.splits)

lemma poll_loop_restatus:
  "poll_loop B I s now l (map (restatus f) evs) = poll_loop B I s now l evs"
proof (induction evs arbitrary: now l)
  case Nil
  then show ?case by simp
next
  case (Cons ev evs)
  show ?case
  proof (cases "answer ev")
    case (NetworkError m)
    then show ?thesis by (simp add: restatus_fields)
  next
    case (Response r)
    then show ?thesis
      by (simp add: restatus_fields Cons.IH json_or_null_def Let_def)
  qed
qed

lemma undecodable_pending:
  "answer ev = Response r \<Longrightarrow> content r = None \<Longrightarrow> pending ev \<and> reading ev = Some JNull"
  by (simp add: pending_def reading_def json_or_null_def is_done_def)

lemma Threw_reading_None:
  assumes "poll_loop B I s now l evs = Some (Threw m, n)"
  shows "\<exists>ev\<in>set evs. reading ev = None"
proof -
  from assms obtain k where "k < length evs" "answer (evs ! k) = NetworkError m"
    unfolding poll_loop_Threw_iff by blast
  then have "evs ! k \<in> set evs" "reading (evs ! k) = None"
    by (simp_all add: reading_def)
  then show ?thesis by blast
qed

text \<open>
  C1, as the code has it. The poll loop does not inspect the HTTP status of a status
  response: replacing the status of every response leaves its result unchanged. A
  body that does not decode is read as \<^verbatim>\<open>null\<close>, which is not a finished job. A read
  that is not a finished job, within the budget, makes the loop sleep and go on to the
  next read. So after a successful launch the wait and wait-upload flows answer 200,
  408 or 500, never 502; the wait flow answers 500 only when \<^verbatim>\<open>fetch\<close> threw on a
  status read.
\<close>

theorem status_read_failures_polled_past:
  fixes e :: "'a env_scheme" and w :: "'b world_scheme"
  assumes "http_method req = ''POST''" "readJsonBody req = Inr b" "getApiKey e = Inr apiKey"
    "ok startResp" "jget (json_or_null startResp) ''jobId'' = Some jobId" "truthy jobId"
  shows
    "poll_loop B I s now l (map (restatus f) evs) = poll_loop B I s now l evs \<and>
     (\<forall>r. answer ev = Response r \<and> content r = None \<longrightarrow> pending ev \<and> reading ev = Some JNull) \<and>
     (pending ev \<and> now - s < B \<longrightarrow>
        (\<exists>b'. reading ev = Some b' \<and> \<not> is_done b' \<and>
           poll_loop B I s now l (ev # evs) =
             map_option (\<lambda>(res, n). (res, Suc n))
               (poll_loop B I s (now + of_nat (took ev) + I + of_nat (overslept ev)) b' evs))) \<and>
     (\<forall>(parsed :: GenerationRequest) rep tr.
        safeParse b = Inr parsed \<and>
        launch w (start_call apiKey (payloadToUpstream parsed)) = Response startResp \<and>
        handler_wait e w req = Some (rep, tr) \<longrightarrow>
        statusCode rep \<in> {200, 408, 500} \<and>
        (statusCode rep = 500 \<longrightarrow> (\<exists>ev\<in>set (polls w). reading ev = None))) \<and>
     (\<forall>(parsed :: UploadRequest) rep tr.
        safeParse_upload b = Inr parsed \<and>
        launch w (start_call apiKey (payloadToUpstream parsed)) = Response startResp \<and>
        handler_wait_upload e w req = Some (rep, tr) \<longrightarrow>
        statusCode rep \<in> {200, 408, 500})"
proof (intro conjI allI impI; (elim conjE)?)
  show "poll_loop B I s now l (map (restatus f) evs) = poll_loop B I s now l evs"
    by (rule poll_loop_restatus)
next
  fix r assume "answer ev = Response r" "content r = None"
  then show "pending ev" "reading ev = Some JNull"
    using undecodable_pending by blast+
next
  assume "pending ev" "now - s < B"
  then show "\<exists>b'. reading ev = Some b' \<and> \<not> is_done b' \<and>
           poll_loop B I s now l (ev # evs) =
             map_option (\<lambda>(res, n). (res, Suc n))
               (poll_loop B I s (now + of_nat (took ev) + I + of_nat (overslept ev)) b' evs)"
    by (rule poll_loop_pending_step)
next
  fix parsed :: GenerationRequest and rep tr
  assume p: "safeParse b = Inr parsed"
    "launch w (start_call apiKey (payloadToUpstream parsed)) = Response startResp"
    "handler_wait e w req = Some (rep, tr)"
  note c = handler_wait_launched_code [OF assms(1,2) p(1) assms(3) p(2) assms(4,5,6) p(3)]
  from c show "statusCode rep \<in> {200, 408, 500}" by auto
  {
    assume "statusCode rep = 500"
    with c obtain m n where "poll_loop (parseTimeoutMs e req) (parsePollIntervalMs e req)
        (clock w) (clock w) JNull (polls w) = Some (Threw m, n)" by auto
    then show "\<exists>ev\<in>set (polls w). reading ev = None" by (rule Threw_reading_None)
  }
next
  fix parsed :: UploadRequest and rep tr
  assume p: "safeParse_upload b = Inr parsed"
    "launch w (start_call apiKey (payloadToUpstream parsed)) = Response startResp"
    "handler_wait_upload e w req = Some (rep, tr)"
  from handler_wait_upload_launched_code [OF assms(1,2) p(1) assms(3) p(2) assms(4,5,6) p(3)]
  show "statusCode rep \<in> {200, 408, 500}" by auto
qed


lemma failed_read_facts:
  "answer failed_read = Response \<lparr>status = 500, content = None\<rparr>"
  "\<not> ok \<lparr>status = 500, content = None\<rparr>"
  "took failed_read = 0" "overslept failed_read = 0"
  "took done_read = 0" "overslept done_read = 0"
  by (simp_all add: failed_read_def done_read_def read_of_def ok_def)

lemma example_job_id:
  "jget (json_or_null (job_started abc_job)) ''jobId'' = Some (JStr ''abc'')"
  by (simp add: abc_job_facts)

lemma example_wait:
  "handler_wait test_env (example_world (job_started abc_job) evs) lofi_request =
     (case poll_loop 3000 1000 0 0 JNull evs of
        None \<Rightarrow> None
      | Some (Done statusJson, n) \<Rightarrow>
          Some (json 200 (normalizeAuthor statusJson),
                start_call ''pax-key'' (payloadToUpstream lofi_simple) #
                replicate n (status_call test_env ''pax-key''
                               (JStr ''https://api.paxsenix.org/task/abc'')))
      | Some (TimedOut lastJson, n) \<Rightarrow>
          Some (timed_out (JStr ''abc'') (JStr ''https://api.paxsenix.org/task/abc'') lastJson,
                start_call ''pax-key'' (payloadToUpstream lofi_simple) #
                replicate n (status_call test_env ''pax-key''
                               (JStr ''https://api.paxsenix.org/task/abc'')))
      | Some (Threw m, n) \<Rightarrow>
          Some (internal_error m,
                start_call ''pax-key'' (payloadToUpstream lofi_simple) #
                replicate n (status_call test_env ''pax-key''
                               (JStr ''https://api.paxsenix.org/task/abc''))))"
  using handler_wait_launched [OF lofi_request_facts(1,2) lofi_safeParse test_env_keys(1)
      example_world_facts(1) abc_job_facts(1) example_job_id abc_job_facts(4), of evs]
  by (simp add: lofi_request_facts example_world_facts abc_job_facts
      del: poll_loop.simps normalizeAuthor.simps
      split: option.split poll_result.split prod.split)

lemma polled_past_failed_read:
  "poll_loop 3000 1000 0 0 JNull [failed_read, done_read] =
     Some (Done (status_body True ''done''), 2)"
proof -
  have "poll_loop 3000 1000 0 0 JNull [failed_read, done_read] =
     Some (Done (status_body True ''done''), Suc 1)"
    unfolding poll_loop_Done_iff
    using undecodable_pending [OF failed_read_facts(1)]
    by (simp add: example_reads failed_read_facts all_le_Suc_shift)
  then show ?thesis by simp
qed

lemma wait_polled_past_failed_read:
  "handler_wait test_env (example_world (job_started abc_job) [failed_read, done_read])
     lofi_request =
     Some (json 200 (normalizeAuthor (status_body True ''done'')),
           start_call ''pax-key'' (payloadToUpstream lofi_simple) #
           replicate 2 (status_call test_env ''pax-key''
                          (JStr ''https://api.paxsenix.org/task/abc'')))"
  unfolding example_wait polled_past_failed_read by simp

text \<open>A status read answered \<^verbatim>\<open>500\<close> with a body that does not decode is polled past:
  the wait flow reads again and answers 200 when the second read is a finished job.\<close>

theorem failed_status_read_counterexample:
  "answer failed_read = Response \<lparr>status = 500, content = None\<rparr> \<and>
   \<not> ok \<lparr>status = 500, content = None\<rparr> \<and>
   handler_wait test_env (example_world (job_started abc_job) [failed_read, done_read])
     lofi_request =
     Some (json 200 (normalizeAuthor (status_body True ''done'')),
           start_call ''pax-key'' (payloadToUpstream lofi_simple) #
           replicate 2 (status_call test_env ''pax-key''
                          (JStr ''https://api.paxsenix.org/task/abc''))) \<and>
   statusCode (json 200 (normalizeAuthor (status_body True ''done''))) \<noteq> 502"
  using failed_read_facts(1,2) wait_polled_past_failed_read
  by (simp add: reply_codes del: normalizeAuthor.simps)

theorem status_read_failures_polled_past_witness:
  "pending failed_read \<and> reading failed_read = Some JNull \<and>
   poll_loop 3000 1000 0 0 JNull (map (restatus (\<lambda>c. 200)) [failed_read, done_read]) =
     Some (Done (status_body True ''done''), 2) \<and>
   statusCode (json 200 (normalizeAuthor (status_body True ''done''))) \<in> {200, 408, 500}"
proof -
  note t = status_read_failures_polled_past [OF lofi_request_facts(1,2) test_env_keys(1)
      abc_job_facts(1) example_job_id abc_job_facts(4),
      where w = "example_world (job_started abc_job) [failed_read, done_read]"
        and ev = failed_read and evs = "[failed_read, done_read]" and B = 3000 and I = 1000
        and s = 0 and now = 0 and l = JNull and f = "\<lambda>c. 200"]
  from t have 1: "pending failed_read \<and> reading failed_read = Some JNull"
    using failed_read_facts(1) by simp
  from t have 2: "poll_loop 3000 1000 0 0 JNull (map (restatus (\<lambda>c. 200)) [failed_read, done_read]) =
     Some (Done (status_body True ''done''), 2)"
    using polled_past_failed_read by (simp only:)
  from t lofi_safeParse wait_polled_past_failed_read
  have 3: "statusCode (json 200 (normalizeAuthor (status_body True ''done''))) \<in> {200, 408, 500}"
    by (simp add: example_world_facts del: normalizeAuthor.simps)
  show ?thesis using 1 2 3 by blast
qed


lemma all_pending_never_done:
  assumes "\<forall>ev\<in>set evs. pending ev"
  shows "poll_loop B I s now l evs = None \<or>
     (\<exists>b' n'. poll_loop B I s now l evs = Some (TimedOut b', n') \<and> n' \<le> length evs \<and>
        \<not> head_time I now evs n' - s < B)"
proof (cases "poll_loop B I s now l evs")
  case None
  then show ?thesis by simp
next
  case (Some res)
  obtain r n where res: "res = (r, n)" by (cases res)
  show ?thesis
  proof (cases r)
    case (Done d)
    with Some res have "poll_loop B I s now l evs = Some (Done d, n)" by simp
    then obtain k where "k < length evs" "reading (evs ! k) = Some d" "is_done d"
      unfolding poll_loop_Done_iff by blast
    moreover from this assms have "pending (evs ! k)" by simp
    ultimately show ?thesis
      by (auto simp: pending_def reading_def split: fetched.splits)
  next
    case (TimedOut d)
    with Some res have *: "poll_loop B I s now l evs = Some (TimedOut d, n)" by simp
    then have "n \<le> length evs \<and> \<not> head_time I now evs n - s < B"
      unfolding poll_loop_TimedOut_iff by blast
    with * show ?thesis by blast
  next
    case (Threw m)
    with Some res have "poll_loop B I s now l evs = Some (Threw m, n)" by simp
    then obtain k where "k < length evs" "answer (evs ! k) = NetworkError m"
      unfolding poll_loop_Threw_iff by blast
    moreover from this assms have "pending (evs ! k)" by simp
    ultimately show ?thesis by (simp add: pending_def)
  qed
qed

lemma head_time_lower:
  "0 \<le> I \<Longrightarrow> k \<le> length evs \<Longrightarrow> now + of_nat k * I \<le> head_time I now evs k"
proof (induction evs arbitrary: now k)
  case Nil
  then show ?case by simp
next
  case (Cons ev evs)
  show ?case
  proof (cases k)
    case 0
    then show ?thesis by simp
  next
    case (Suc j)
    with Cons.prems have "j \<le> length evs" by simp
    from Cons.IH [OF Cons.prems(1) this,
        of "now + of_nat (took ev) + I + of_nat (overslept ev)"]
    show ?thesis using Suc by (simp add: algebra_simps)
  qed
qed

lemma poll_loop_returns:
  assumes "0 < I" "B \<le> of_nat (length evs) * I" "s \<le> now"
  shows "poll_loop B I s now l evs \<noteq> None"
proof
  assume "poll_loop B I s now l evs = None"
  then have "head_time I now evs (length evs) - s < B"
    unfolding poll_loop_None_iff by blast
  moreover have "now + of_nat (length evs) * I \<le> head_time I now evs (length evs)"
    using head_time_lower [of I "length evs" evs now] assms(1) by simp
  ultimately show False using assms(2,3) by linarith
qed

lemma unflagged_pending:
  "reading ev = Some d \<Longrightarrow> jget d ''ok'' \<noteq> Some (JBool True) \<Longrightarrow> pending ev"
  by (auto simp: reading_def pending_def is_done_def split: fetched.splits)

text \<open>
  C4. The loop ends in its branch for a finished job after \<open>n\<close> reads, with body \<open>d\<close>,
  exactly when read \<open>n\<close> is the first whose decoded body \<open>d\<close> has \<^verbatim>\<open>status\<close> equal to
  \<^verbatim>\<open>"done"\<close> and \<^verbatim>\<open>ok\<close> equal to \<^verbatim>\<open>true\<close>, and every round up to it started within the
  budget. A body whose \<^verbatim>\<open>ok\<close> is not \<^verbatim>\<open>true\<close> (false or absent), whatever its status,
  does not end the loop; when no read ends it, the loop runs until the budget is used
  up, and it does time out once the world supplies reads for \<open>B / I\<close> rounds. After a
  successful launch the wait flow answers
  200 exactly in that branch, with the normalised body, and the wait-upload flow
  answers 200 only in that branch.
\<close>

theorem success_exactly_on_done:
  fixes e :: "'a env_scheme" and w :: "'b world_scheme"
  assumes "http_method req = ''POST''" "readJsonBody req = Inr b" "getApiKey e = Inr apiKey"
    "ok startResp" "jget (json_or_null startResp) ''jobId'' = Some jobId" "truthy jobId"
  shows
    "(poll_loop B I s now l evs = Some (Done d, n) \<longleftrightarrow>
        (\<exists>k. n = Suc k \<and> k < length evs \<and> (\<forall>j<k. pending (evs ! j)) \<and>
             reading (evs ! k) = Some d \<and> is_done d \<and>
             (\<forall>j\<le>k. head_time I now evs j - s < B))) \<and>
     (is_done d \<longleftrightarrow>
        jget d ''status'' = Some (JStr ''done'') \<and> jget d ''ok'' = Some (JBool True)) \<and>
     (reading ev = Some d \<and> jget d ''ok'' \<noteq> Some (JBool True) \<longrightarrow> pending ev) \<and>
     ((\<forall>ev\<in>set evs. pending ev) \<longrightarrow>
        poll_loop B I s now l evs = None \<or>
        (\<exists>b' n'. poll_loop B I s now l evs = Some (TimedOut b', n') \<and> n' \<le> length evs \<and>
           \<not> head_time I now evs n' - s < B)) \<and>
     ((\<forall>ev\<in>set evs. pending ev) \<and> 0 < I \<and> s \<le> now \<and> B \<le> of_nat (length evs) * I \<longrightarrow>
        (\<exists>b' n'. poll_loop B I s now l evs = Some (TimedOut b', n'))) \<and>
     (\<forall>(parsed :: GenerationRequest) rep tr.
        safeParse b = Inr parsed \<and>
        launch w (start_call apiKey (payloadToUpstream parsed)) = Response startResp \<and>
        handler_wait e w req = Some (rep, tr) \<longrightarrow>
        (statusCode rep = 200 \<longleftrightarrow>
           (\<exists>sj m. poll_loop (parseTimeoutMs e req) (parsePollIntervalMs e req) (clock w)
                     (clock w) JNull (polls w) = Some (Done sj, m) \<and>
                   rep = json 200 (normalizeAuthor sj)))) \<and>
     (\<forall>(parsed :: UploadRequest) rep tr.
        safeParse_upload b = Inr parsed \<and>
        launch w (start_call apiKey (payloadToUpstream parsed)) = Response startResp \<and>
        handler_wait_upload e w req = Some (rep, tr) \<and> statusCode rep = 200 \<longrightarrow>
        (\<exists>sj m. poll_loop (parseTimeoutMs e req) (parsePollIntervalMs e req) (clock w)
                  (clock w) JNull (polls w) = Some (Done sj, m)))"
proof (intro conjI allI impI; (elim conjE)?)
  show "poll_loop B I s now l evs = Some (Done d, n) \<longleftrightarrow>
        (\<exists>k. n = Suc k \<and> k < length evs \<and> (\<forall>j<k. pending (evs ! j)) \<and>
             reading (evs ! k) = Some d \<and> is_done d \<and>
             (\<forall>j\<le>k. head_time I now evs j - s < B))"
    by (rule poll_loop_Done_iff)
next
  show "is_done d \<longleftrightarrow>
        jget d ''status'' = Some (JStr ''done'') \<and> jget d ''ok'' = Some (JBool True)"
    by (simp add: is_done_def)
next
  assume "reading ev = Some d" "jget d ''ok'' \<noteq> Some (JBool True)"
  then show "pending ev" by (rule unflagged_pending)
next
  assume "\<forall>ev\<in>set evs. pending ev"
  then show "poll_loop B I s now l evs = None \<or>
        (\<exists>b' n'. poll_loop B I s now l evs = Some (TimedOut b', n') \<and> n' \<le> length evs \<and>
           \<not> head_time I now evs n' - s < B)"
    by (rule all_pending_never_done)
next
  assume a: "\<forall>ev\<in>set evs. pending ev" "0 < I" "s \<le> now" "B \<le> of_nat (length evs) * I"
  from all_pending_never_done [OF a(1), of B I s now l] poll_loop_returns [OF a(2,4,3), of l]
  show "\<exists>b' n'. poll_loop B I s now l evs = Some (TimedOut b', n')" by blast
next
  fix parsed :: GenerationRequest and rep tr
  assume p: "safeParse b = Inr parsed"
    "launch w (start_call apiKey (payloadToUpstream parsed)) = Response startResp"
    "handler_wait e w req = Some (rep, tr)"
  from handler_wait_launched_code [OF assms(1,2) p(1) assms(3) p(2) assms(4,5,6) p(3)]
  show "statusCode rep = 200 \<longleftrightarrow>
           (\<exists>sj m. poll_loop (parseTimeoutMs e req) (parsePollIntervalMs e req) (clock w)
                     (clock w) JNull (polls w) = Some (Done sj, m) \<and>
                   rep = json 200 (normalizeAuthor sj))"
    by (auto simp: reply_codes)
next
  fix parsed :: UploadRequest and rep tr
  assume p: "safeParse_upload b = Inr parsed"
    "launch w (start_call apiKey (payloadToUpstream parsed)) = Response startResp"
    "handler_wait_upload e w req = Some (rep, tr)" "statusCode rep = 200"
  from handler_wait_upload_launched_code [OF assms(1,2) p(1) assms(3) p(2) assms(4,5,6) p(3)] p(4)
  show "\<exists>sj m. poll_loop (parseTimeoutMs e req) (parsePollIntervalMs e req) (clock w)
                  (clock w) JNull (polls w) = Some (Done sj, m)"
    by auto
qed

lemma done_without_flag_facts:
  "reading done_unflagged_read = Some (JObj [(''status'', JStr ''done'')])"
  "reading done_false_read = Some (status_body False ''done'')"
  "jget (JObj [(''status'', JStr ''done'')]) ''ok'' \<noteq> Some (JBool True)"
  "jget (status_body False ''done'') ''ok'' \<noteq> Some (JBool True)"
  "took done_unflagged_read = 0" "overslept done_unflagged_read = 0"
  "took done_false_read = 0" "overslept done_false_read = 0"
  by (simp_all add: reading_def done_unflagged_read_def done_false_read_def read_of_def
      json_or_null_def status_body_def)

theorem success_exactly_on_done_witness:
  "pending done_unflagged_read \<and> pending done_false_read \<and>
   poll_loop 3000 1000 0 0 JNull [done_unflagged_read, done_false_read, done_read] =
     Some (Done (status_body True ''done''), 3) \<and>
   (\<exists>b' n'. poll_loop 2000 1000 0 0 JNull [done_unflagged_read, done_false_read] =
     Some (TimedOut b', n'))"
proof -
  note t = success_exactly_on_done [OF lofi_request_facts(1,2) test_env_keys(1)
      abc_job_facts(1) example_job_id abc_job_facts(4), where s = 0 and now = 0 and I = 1000
      and l = JNull]
  have 1: "pending done_unflagged_read"
    using t [where ev = done_unflagged_read and d = "JObj [(''status'', JStr ''done'')]"]
      done_without_flag_facts(1,3) by blast
  have 2: "pending done_false_read"
    using t [where ev = done_false_read and d = "status_body False ''done''"]
      done_without_flag_facts(2,4) by blast
  have "poll_loop 3000 1000 0 0 JNull [done_unflagged_read, done_false_read, done_read] =
     Some (Done (status_body True ''done''), Suc 2)"
    unfolding t [where evs = "[done_unflagged_read, done_false_read, done_read]" and B = 3000
        and d = "status_body True ''done''" and n = "Suc 2", THEN conjunct1]
    using 1 2
    by (simp add: example_reads done_without_flag_facts failed_read_facts all_less_Suc_shift
        all_le_Suc_shift numeral_2_eq_2)
  then have 3: "poll_loop 3000 1000 0 0 JNull [done_unflagged_read, done_false_read, done_read] =
     Some (Done (status_body True ''done''), 3)" by simp
  have "poll_loop 2000 1000 0 0 JNull [done_unflagged_read, done_false_read] \<noteq> None"
    unfolding poll_loop_None_iff
    by (simp add: all_le_Suc_shift done_without_flag_facts numeral_2_eq_2)
  then have 4: "\<exists>b' n'. poll_loop 2000 1000 0 0 JNull [done_unflagged_read, done_false_read] =
     Some (TimedOut b', n')"
    using t [where evs = "[done_unflagged_read, done_false_read]" and B = 2000,
        THEN conjunct2, THEN conjunct2, THEN conjunct2, THEN conjunct1] 1 2
    by (auto simp del: poll_loop.simps)
  show ?thesis using 1 2 3 4 by blast
qed


section \<open>The batch of uploads\<close>

lemma those_map_Some: "those (map Some vs) = Some vs"
  by (induction vs) simp_all

lemma fold_settle_fulfilled:
  "fold (settle_one (map Fulfilled vs)) order (Fulfilled slots) =
     Fulfilled (fold (\<lambda>i sl. if i < length vs then sl[i := Some (vs ! i)] else sl) order slots)"
  by (induction order arbitrary: slots) simp_all

lemma fold_fill_length:
  "length (fold (\<lambda>i sl. if i < n then sl[i := f i] else sl) order slots) = length slots"
  by (induction order arbitrary: slots) simp_all

lemma fold_fill_nth:
  "i < length slots \<Longrightarrow>
   fold (\<lambda>i sl. if i < n then sl[i := f i] else sl) order slots ! i =
     (if i \<in> set order \<and> i < n then f i else slots ! i)"
proof (induction order arbitrary: slots)
  case Nil
  then show ?case by simp
next
  case (Cons j order)
  then show ?case by (auto simp: nth_list_update)
qed

lemma promise_all_fulfilled:
  assumes "{..<length vs} \<subseteq> set order"
  shows "promise_all order (map Fulfilled vs) = Some (Fulfilled vs)"
proof -
  let ?g = "fold (\<lambda>i sl. if i < length vs then sl[i := Some (vs ! i)] else sl) order
              (replicate (length vs) None)"
  have "?g = map Some vs"
  proof (rule nth_equalityI)
    show "length ?g = length (map Some vs)" by (simp add: fold_fill_length)
  next
    fix i assume "i < length ?g"
    then have i: "i < length vs" by (simp add: fold_fill_length)
    then have "i \<in> set order" using assms by auto
    then show "?g ! i = map Some vs ! i" using i by (simp add: fold_fill_nth)
  qed
  then show ?thesis
    by (simp add: promise_all_def fold_settle_fulfilled those_map_Some)
qed

lemma all_fulfilled_map:
  fixes ps :: "'a settled list"
  shows "\<forall>p\<in>set ps. \<exists>v. p = Fulfilled v \<Longrightarrow> \<exists>vs :: 'a list. ps = map Fulfilled vs"
proof (induction ps)
  case Nil
  then show ?case by simp
next
  case (Cons p ps)
  then obtain v vs where "p = Fulfilled v" "ps = map Fulfilled vs" by auto
  then have "p # ps = map Fulfilled (v # vs)" by simp
  then show ?case by (rule exI)
qed

lemma upload_record_no_audio:
  assumes "\<forall>u. jget r ''audio_url'' = Some (JStr u) \<longrightarrow> u = []"
  shows "upload_record e srv parsed jobId r idx =
     (Fulfilled (JObj [(''ok'', JBool False), (''message'', JStr ''missing audio_url''),
                       (''recordIndex'', JNum (of_nat idx))]), [])"
  using assms unfolding upload_record_def
  by (auto simp: Let_def split: option.splits jsval.splits)

lemma upload_record_answered:
  assumes "jget r ''audio_url'' = Some (JStr u)" "u \<noteq> []" "getKieApiKey e = Inr key"
    "srv idx (upload_call key u (kieUploadPath parsed) (Some (kie_file_name e parsed jobId idx)))
       = Response resp"
  shows "upload_record e srv parsed jobId r idx =
     (Fulfilled
        (if \<not> ok resp then
           JObj [(''ok'', JBool False), (''recordIndex'', JNum (of_nat idx)),
                 (''uploadError'',
                  JObj [(''ok'', JBool False), (''status'', JNum (of_nat (status resp))),
                        (''upstream'', json_or_null resp)])]
         else
           JObj [(''ok'', JBool True), (''recordIndex'', JNum (of_nat idx)),
                 (''sourceAudioUrl'', JStr u),
                 (''kie'', JObj (stored_fields e (json_or_null resp)))]),
      [upload_call key u (kieUploadPath parsed) (Some (kie_file_name e parsed jobId idx))])"
  using assms unfolding upload_record_def kieUploadFromUrl_def
  by (simp add: Let_def)

lemma upload_record_calls:
  assumes "getKieApiKey e = Inr key"
  shows "snd (upload_record e srv parsed jobId r idx) =
     (case jget r ''audio_url'' of
        Some (JStr u) \<Rightarrow>
          if u = [] then []
          else [upload_call key u (kieUploadPath parsed) (Some (kie_file_name e parsed jobId idx))]
      | _ \<Rightarrow> [])"
  using assms unfolding upload_record_def kieUploadFromUrl_def
  by (auto simp: Let_def split: option.splits jsval.splits fetched.splits)


lemma upload_record_fulfilled:
  assumes "getKieApiKey e = Inr key" "\<forall>c. \<exists>resp. srv idx c = Response resp"
  shows "\<exists>v. fst (upload_record e srv parsed jobId r idx) = Fulfilled v"
proof (cases "\<forall>u. jget r ''audio_url'' = Some (JStr u) \<longrightarrow> u = []")
  case True
  then show ?thesis by (simp add: upload_record_no_audio)
next
  case False
  then obtain u where u: "jget r ''audio_url'' = Some (JStr u)" "u \<noteq> []" by blast
  from assms(2) obtain resp where
    "srv idx (upload_call key u (kieUploadPath parsed) (Some (kie_file_name e parsed jobId idx)))
       = Response resp" by blast
  from upload_record_answered [where srv = srv and idx = idx, OF u assms(1) this]
  show ?thesis by simp
qed

lemma upload_all_unfold:
  "upload_all e w parsed jobId rs =
     (promise_all (completion w)
        (map (\<lambda>i. fst (upload_record e (kie w) parsed jobId (rs ! i) i)) [0..<length rs]),
      concat (map (\<lambda>i. snd (upload_record e (kie w) parsed jobId (rs ! i) i)) [0..<length rs]))"
proof -
  have z: "zip rs [0..<length rs] = map (\<lambda>i. (rs ! i, i)) [0..<length rs]"
    by (rule nth_equalityI) simp_all
  show ?thesis
    unfolding upload_all_def Let_def z by (simp add: comp_def)
qed

lemma upload_all_settles:
  fixes w :: "'b world_scheme"
  assumes key: "getKieApiKey e = Inr key"
    and answered: "\<forall>i<length rs. \<forall>c. \<exists>resp. kie w i c = Response resp"
  shows "\<exists>ups. length ups = length rs \<and>
     (\<forall>i<length rs. fst (upload_record e (kie w) parsed jobId (rs ! i) i) = Fulfilled (ups ! i)) \<and>
     (\<forall>order. {..<length rs} \<subseteq> set order \<longrightarrow>
        fst (upload_all e (w\<lparr>completion := order\<rparr>) parsed jobId rs) = Some (Fulfilled ups))"
proof -
  let ?ps = "map (\<lambda>i. fst (upload_record e (kie w) parsed jobId (rs ! i) i)) [0..<length rs]"
  have "\<exists>v. fst (upload_record e (kie w) parsed jobId (rs ! i) i) = Fulfilled v"
    if "i < length rs" for i
  proof (rule upload_record_fulfilled [OF key])
    show "\<forall>c. \<exists>resp. kie w i c = Response resp" using answered that by blast
  qed
  then have "\<forall>p\<in>set ?ps. \<exists>v. p = Fulfilled v" by auto
  then obtain ups where ups: "?ps = map Fulfilled ups" using all_fulfilled_map by blast
  then have "length ?ps = length (map Fulfilled ups)" by simp
  then have len: "length ups = length rs" by simp
  have nth: "fst (upload_record e (kie w) parsed jobId (rs ! i) i) = Fulfilled (ups ! i)"
    if "i < length rs" for i
  proof -
    have "?ps ! i = map Fulfilled ups ! i" using ups by simp
    then show ?thesis using that len by simp
  qed
  have "fst (upload_all e (w\<lparr>completion := order\<rparr>) parsed jobId rs) = Some (Fulfilled ups)"
    if "{..<length rs} \<subseteq> set order" for order
    using that by (simp add: upload_all_unfold ups promise_all_fulfilled len)
  with len nth show ?thesis by blast
qed

lemma upload_all_calls:
  assumes "getKieApiKey e = Inr key"
  shows "snd (upload_all e w parsed jobId rs) =
     concat (map (\<lambda>i.
        case jget (rs ! i) ''audio_url'' of
          Some (JStr u) \<Rightarrow>
            if u = [] then []
            else [upload_call key u (kieUploadPath parsed)
                    (Some (kie_file_name e parsed jobId i))]
        | _ \<Rightarrow> []) [0..<length rs])"
  by (simp add: upload_all_unfold upload_record_calls [OF assms])

lemma jget_kieUploads:
  "jget (normalizeAuthor
      (JObj (obj_spread kvs [(''jobId'', j), (''task_url'', t), (''kieUploads'', u)])))
     ''kieUploads'' = Some u"
  by (simp add: jget_normalizeAuthor map_of_obj_spread del: normalizeAuthor.simps
      split: option.splits)


lemma stored_downloadUrl:
  "map_of (stored_fields e d) ''downloadUrl'' = jget2 d ''data'' ''downloadUrl''"
  by (simp add: stored_fields_def opt_field_def split: option.splits)

lemma wait_upload_done:
  fixes e :: "'a env_scheme" and w :: "'b world_scheme" and parsed :: UploadRequest
  assumes req: "http_method req = ''POST''" "readJsonBody req = Inr b"
      "safeParse_upload b = Inr parsed"
    and keys: "getApiKey e = Inr apiKey" "getKieApiKey e = Inr key"
    and started: "launch w (start_call apiKey (payloadToUpstream parsed)) = Response startResp"
      "ok startResp" "jget (json_or_null startResp) ''jobId'' = Some jobId" "truthy jobId"
    and finished: "poll_loop (parseTimeoutMs e req) (parsePollIntervalMs e req) (clock w)
        (clock w) JNull (polls w) = Some (Done statusJson, n)"
    and answered: "\<forall>i<length (records_of statusJson). \<forall>c. \<exists>resp. kie w i c = Response resp"
  shows "\<exists>ups. length ups = length (records_of statusJson) \<and>
     (\<forall>i<length (records_of statusJson).
        fst (upload_record e (kie w) parsed jobId (records_of statusJson ! i) i)
          = Fulfilled (ups ! i)) \<and>
     (\<forall>order. {..<length (records_of statusJson)} \<subseteq> set order \<longrightarrow>
        handler_wait_upload e (w\<lparr>completion := order\<rparr>) req =
          Some (json 200 (normalizeAuthor
                  (JObj (obj_spread (own_props statusJson)
                     [(''jobId'', jobId),
                      (''task_url'', task_url_of e (json_or_null startResp) jobId),
                      (''kieUploads'', JArr ups)]))),
                start_call apiKey (payloadToUpstream parsed) #
                replicate n (status_call e apiKey
                   (task_url_of e (json_or_null startResp) jobId)) @
                concat (map (\<lambda>i.
                   case jget (records_of statusJson ! i) ''audio_url'' of
                     Some (JStr u) \<Rightarrow>
                       if u = [] then []
                       else [upload_call key u (kieUploadPath parsed)
                               (Some (kie_file_name e parsed jobId i))]
                   | _ \<Rightarrow> []) [0..<length (records_of statusJson)])))"
proof -
  from upload_all_settles [OF keys(2) answered, of parsed jobId]
  obtain ups where ups: "length ups = length (records_of statusJson)"
    "\<forall>i<length (records_of statusJson).
        fst (upload_record e (kie w) parsed jobId (records_of statusJson ! i) i)
          = Fulfilled (ups ! i)"
    "\<forall>order. {..<length (records_of statusJson)} \<subseteq> set order \<longrightarrow>
        fst (upload_all e (w\<lparr>completion := order\<rparr>) parsed jobId (records_of statusJson))
          = Some (Fulfilled ups)"
    by blast
  have "handler_wait_upload e (w\<lparr>completion := order\<rparr>) req =
          Some (json 200 (normalizeAuthor
                  (JObj (obj_spread (own_props statusJson)
                     [(''jobId'', jobId),
                      (''task_url'', task_url_of e (json_or_null startResp) jobId),
                      (''kieUploads'', JArr ups)]))),
                start_call apiKey (payloadToUpstream parsed) #
                replicate n (status_call e apiKey
                   (task_url_of e (json_or_null startResp) jobId)) @
                concat (map (\<lambda>i.
                   case jget (records_of statusJson ! i) ''audio_url'' of
                     Some (JStr u) \<Rightarrow>
                       if u = [] then []
                       else [upload_call key u (kieUploadPath parsed)
                               (Some (kie_file_name e parsed jobId i))]
                   | _ \<Rightarrow> []) [0..<length (records_of statusJson)]))"
    if o: "{..<length (records_of statusJson)} \<subseteq> set order" for order
  proof -
    let ?w = "w\<lparr>completion := order\<rparr>"
    have l: "launch ?w (start_call apiKey (payloadToUpstream parsed)) = Response startResp"
      using started(1) by simp
    have f: "poll_loop (parseTimeoutMs e req) (parsePollIntervalMs e req) (clock ?w)
        (clock ?w) JNull (polls ?w) = Some (Done statusJson, n)"
      using finished by simp
    have u: "upload_all e ?w parsed jobId (records_of statusJson) =
        (Some (Fulfilled ups), snd (upload_all e ?w parsed jobId (records_of statusJson)))"
      using ups(3) o by (metis prod.collapse)
    show ?thesis
      unfolding handler_wait_upload_launched [OF req keys(1) l started(2,3,4)] f
      apply (simp only: option.case prod.case poll_result.case)
      apply (subst u)
      apply (simp add: upload_all_calls [OF keys(2)] del: normalizeAuthor.simps)
      done
  qed
  with ups(1,2) show ?thesis by blast
qed


text \<open>
  C8. Take a request to the wait-upload flow that passed validation, with both keys
  configured, whose launch succeeded and whose poll loop found the finished job
  \<open>statusJson\<close> with \<open>N\<close> records. When the storage provider answers every upload call
  with an HTTP response, of whatever status, and all uploads complete, in whatever
  order, the flow answers 200 and its \<^verbatim>\<open>kieUploads\<close> array has length \<open>N\<close>. For each
  record \<open>i\<close> with an \<^verbatim>\<open>audio_url\<close>, entry \<open>i\<close> carries \<^verbatim>\<open>recordIndex\<close> \<open>i\<close>; it is
  \<^verbatim>\<open>ok: true\<close> with the source address and the \<^verbatim>\<open>downloadUrl\<close> of the provider's answer
  when that answer is 2xx, and \<^verbatim>\<open>ok: false\<close> with the provider's status and body under
  \<^verbatim>\<open>uploadError\<close> when it is not. Reply and trace are the same for every completion
  order.
\<close>

theorem batch_upload_failures_per_item:
  fixes e :: "'a env_scheme" and w :: "'b world_scheme" and parsed :: UploadRequest
  assumes req: "http_method req = ''POST''" "readJsonBody req = Inr b"
      "safeParse_upload b = Inr parsed"
    and keys: "getApiKey e = Inr apiKey" "getKieApiKey e = Inr key"
    and started: "launch w (start_call apiKey (payloadToUpstream parsed)) = Response startResp"
      "ok startResp" "jget (json_or_null startResp) ''jobId'' = Some jobId" "truthy jobId"
    and finished: "poll_loop (parseTimeoutMs e req) (parsePollIntervalMs e req) (clock w)
        (clock w) JNull (polls w) = Some (Done statusJson, n)"
    and answered: "\<forall>i<length (records_of statusJson). \<forall>c. \<exists>resp. kie w i c = Response resp"
    and joined: "{..<length (records_of statusJson)} \<subseteq> set (completion w)"
  shows "\<exists>ups rep tr body.
     handler_wait_upload e w req = Some (rep, tr) \<and> statusCode rep = 200 \<and>
     sent rep = Some body \<and> jget body ''kieUploads'' = Some (JArr ups) \<and>
     length ups = length (records_of statusJson) \<and>
     (\<forall>i<length (records_of statusJson). \<forall>u resp.
        jget (records_of statusJson ! i) ''audio_url'' = Some (JStr u) \<and> u \<noteq> [] \<and>
        kie w i (upload_call key u (kieUploadPath parsed)
                   (Some (kie_file_name e parsed jobId i))) = Response resp \<longrightarrow>
        jget (ups ! i) ''recordIndex'' = Some (JNum (of_nat i)) \<and>
        (ok resp \<longrightarrow>
           jget (ups ! i) ''ok'' = Some (JBool True) \<and>
           jget (ups ! i) ''sourceAudioUrl'' = Some (JStr u) \<and>
           jget2 (ups ! i) ''kie'' ''downloadUrl'' =
             jget2 (json_or_null resp) ''data'' ''downloadUrl'') \<and>
        (\<not> ok resp \<longrightarrow>
           jget (ups ! i) ''ok'' = Some (JBool False) \<and>
           jget2 (ups ! i) ''uploadError'' ''status'' = Some (JNum (of_nat (status resp))) \<and>
           jget2 (ups ! i) ''uploadError'' ''upstream'' = Some (json_or_null resp))) \<and>
     (\<forall>order. {..<length (records_of statusJson)} \<subseteq> set order \<longrightarrow>
        handler_wait_upload e (w\<lparr>completion := order\<rparr>) req = Some (rep, tr))"
proof -
  let ?rs = "records_of statusJson"
  from wait_upload_done [OF req keys started finished answered]
  obtain ups rep tr where ups: "length ups = length ?rs"
    and each: "\<forall>i<length ?rs.
        fst (upload_record e (kie w) parsed jobId (?rs ! i) i) = Fulfilled (ups ! i)"
    and rep: "rep = json 200 (normalizeAuthor
                  (JObj (obj_spread (own_props statusJson)
                     [(''jobId'', jobId),
                      (''task_url'', task_url_of e (json_or_null startResp) jobId),
                      (''kieUploads'', JArr ups)])))"
    and all: "\<forall>order. {..<length ?rs} \<subseteq> set order \<longrightarrow>
        handler_wait_upload e (w\<lparr>completion := order\<rparr>) req = Some (rep, tr)"
    by blast
  have "handler_wait_upload e (w\<lparr>completion := completion w\<rparr>) req = Some (rep, tr)"
    using all joined by blast
  then have here: "handler_wait_upload e w req = Some (rep, tr)" by simp
  define body where "body = normalizeAuthor
                  (JObj (obj_spread (own_props statusJson)
                     [(''jobId'', jobId),
                      (''task_url'', task_url_of e (json_or_null startResp) jobId),
                      (''kieUploads'', JArr ups)]))"
  have sent: "statusCode rep = 200" "sent rep = Some body"
    "jget body ''kieUploads'' = Some (JArr ups)"
    unfolding rep body_def by (simp_all add: json_def jget_kieUploads del: normalizeAuthor.simps)
  have item: "jget (ups ! i) ''recordIndex'' = Some (JNum (of_nat i)) \<and>
        (ok resp \<longrightarrow>
           jget (ups ! i) ''ok'' = Some (JBool True) \<and>
           jget (ups ! i) ''sourceAudioUrl'' = Some (JStr u) \<and>
           jget2 (ups ! i) ''kie'' ''downloadUrl'' =
             jget2 (json_or_null resp) ''data'' ''downloadUrl'') \<and>
        (\<not> ok resp \<longrightarrow>
           jget (ups ! i) ''ok'' = Some (JBool False) \<and>
           jget2 (ups ! i) ''uploadError'' ''status'' = Some (JNum (of_nat (status resp))) \<and>
           jget2 (ups ! i) ''uploadError'' ''upstream'' = Some (json_or_null resp))"
    if "i < length ?rs" "jget (?rs ! i) ''audio_url'' = Some (JStr u)" "u \<noteq> []"
      "kie w i (upload_call key u (kieUploadPath parsed)
                   (Some (kie_file_name e parsed jobId i))) = Response resp"
    for i u resp
  proof -
    from each that(1)
    have "fst (upload_record e (kie w) parsed jobId (?rs ! i) i) = Fulfilled (ups ! i)"
      by blast
    with upload_record_answered [where srv = "kie w" and idx = i, OF that(2,3) keys(2) that(4)]
    have "ups ! i =
        (if \<not> ok resp then
           JObj [(''ok'', JBool False), (''recordIndex'', JNum (of_nat i)),
                 (''uploadError'',
                  JObj [(''ok'', JBool False), (''status'', JNum (of_nat (status resp))),
                        (''upstream'', json_or_null resp)])]
         else
           JObj [(''ok'', JBool True), (''recordIndex'', JNum (of_nat i)),
                 (''sourceAudioUrl'', JStr u),
                 (''kie'', JObj (stored_fields e (json_or_null resp)))])"
      by simp
    then show ?thesis by (simp add: jget2_def stored_downloadUrl)
  qed
  show ?thesis
    using here sent ups item all by blast
qed


text \<open>
  C10. In the same setting, a record whose \<^verbatim>\<open>audio_url\<close> is missing, not a string or
  empty yields the entry \<^verbatim>\<open>{ok: false, message: "missing audio_url", recordIndex: i}\<close>
  at its index and no upload call; the trace of the flow is the launch, the status
  reads and, in index order, exactly one upload call for each record that has an
  \<^verbatim>\<open>audio_url\<close>, sent for that address.
\<close>

theorem missing_audio_url_entry:
  fixes e :: "'a env_scheme" and w :: "'b world_scheme" and parsed :: UploadRequest
  assumes req: "http_method req = ''POST''" "readJsonBody req = Inr b"
      "safeParse_upload b = Inr parsed"
    and keys: "getApiKey e = Inr apiKey" "getKieApiKey e = Inr key"
    and started: "launch w (start_call apiKey (payloadToUpstream parsed)) = Response startResp"
      "ok startResp" "jget (json_or_null startResp) ''jobId'' = Some jobId" "truthy jobId"
    and finished: "poll_loop (parseTimeoutMs e req) (parsePollIntervalMs e req) (clock w)
        (clock w) JNull (polls w) = Some (Done statusJson, n)"
    and answered: "\<forall>i<length (records_of statusJson). \<forall>c. \<exists>resp. kie w i c = Response resp"
    and joined: "{..<length (records_of statusJson)} \<subseteq> set (completion w)"
  shows "\<exists>ups rep tr body.
     handler_wait_upload e w req = Some (rep, tr) \<and> statusCode rep = 200 \<and>
     sent rep = Some body \<and> jget body ''kieUploads'' = Some (JArr ups) \<and>
     length ups = length (records_of statusJson) \<and>
     (\<forall>i<length (records_of statusJson).
        (\<forall>u. jget (records_of statusJson ! i) ''audio_url'' = Some (JStr u) \<longrightarrow> u = []) \<longrightarrow>
        ups ! i = JObj [(''ok'', JBool False), (''message'', JStr ''missing audio_url''),
                        (''recordIndex'', JNum (of_nat i))] \<and>
        snd (upload_record e (kie w) parsed jobId (records_of statusJson ! i) i) = []) \<and>
     tr = start_call apiKey (payloadToUpstream parsed) #
          replicate n (status_call e apiKey (task_url_of e (json_or_null startResp) jobId)) @
          concat (map (\<lambda>i.
             case jget (records_of statusJson ! i) ''audio_url'' of
               Some (JStr u) \<Rightarrow>
                 if u = [] then []
                 else [upload_call key u (kieUploadPath parsed)
                         (Some (kie_file_name e parsed jobId i))]
             | _ \<Rightarrow> []) [0..<length (records_of statusJson)])"
proof -
  let ?rs = "records_of statusJson"
  from wait_upload_done [OF req keys started finished answered]
  obtain ups where ups: "length ups = length ?rs"
    and each: "\<forall>i<length ?rs.
        fst (upload_record e (kie w) parsed jobId (?rs ! i) i) = Fulfilled (ups ! i)"
    and all: "\<forall>order. {..<length ?rs} \<subseteq> set order \<longrightarrow>
        handler_wait_upload e (w\<lparr>completion := order\<rparr>) req =
          Some (json 200 (normalizeAuthor
                  (JObj (obj_spread (own_props statusJson)
                     [(''jobId'', jobId),
                      (''task_url'', task_url_of e (json_or_null startResp) jobId),
                      (''kieUploads'', JArr ups)]))),
                start_call apiKey (payloadToUpstream parsed) #
                replicate n (status_call e apiKey
                   (task_url_of e (json_or_null startResp) jobId)) @
                concat (map (\<lambda>i.
                   case jget (?rs ! i) ''audio_url'' of
                     Some (JStr u) \<Rightarrow>
                       if u = [] then []
                       else [upload_call key u (kieUploadPath parsed)
                               (Some (kie_file_name e parsed jobId i))]
                   | _ \<Rightarrow> []) [0..<length ?rs]))"
    by blast
  define body where "body = normalizeAuthor
                  (JObj (obj_spread (own_props statusJson)
                     [(''jobId'', jobId),
                      (''task_url'', task_url_of e (json_or_null startResp) jobId),
                      (''kieUploads'', JArr ups)]))"
  have "handler_wait_upload e (w\<lparr>completion := completion w\<rparr>) req =
          Some (json 200 body,
                start_call apiKey (payloadToUpstream parsed) #
                replicate n (status_call e apiKey
                   (task_url_of e (json_or_null startResp) jobId)) @
                concat (map (\<lambda>i.
                   case jget (?rs ! i) ''audio_url'' of
                     Some (JStr u) \<Rightarrow>
                       if u = [] then []
                       else [upload_call key u (kieUploadPath parsed)
                               (Some (kie_file_name e parsed jobId i))]
                   | _ \<Rightarrow> []) [0..<length ?rs]))"
    unfolding body_def using all joined by blast
  then have here: "handler_wait_upload e w req =
          Some (json 200 body,
                start_call apiKey (payloadToUpstream parsed) #
                replicate n (status_call e apiKey
                   (task_url_of e (json_or_null startResp) jobId)) @
                concat (map (\<lambda>i.
                   case jget (?rs ! i) ''audio_url'' of
                     Some (JStr u) \<Rightarrow>
                       if u = [] then []
                       else [upload_call key u (kieUploadPath parsed)
                               (Some (kie_file_name e parsed jobId i))]
                   | _ \<Rightarrow> []) [0..<length ?rs]))"
    by simp
  have sent: "statusCode (json 200 body) = 200" "sent (json 200 body) = Some body"
    "jget body ''kieUploads'' = Some (JArr ups)"
    unfolding body_def by (simp_all add: json_def jget_kieUploads del: normalizeAuthor.simps)
  have item: "ups ! i = JObj [(''ok'', JBool False), (''message'', JStr ''missing audio_url''),
                        (''recordIndex'', JNum (of_nat i))] \<and>
        snd (upload_record e (kie w) parsed jobId (?rs ! i) i) = []"
    if "i < length ?rs" "\<forall>u. jget (?rs ! i) ''audio_url'' = Some (JStr u) \<longrightarrow> u = []" for i
  proof -
    from each that(1)
    have "fst (upload_record e (kie w) parsed jobId (?rs ! i) i) = Fulfilled (ups ! i)"
      by blast
    then show ?thesis
      unfolding upload_record_no_audio [OF that(2), of e "kie w" parsed jobId i] by simp
  qed
  show ?thesis
    using here sent ups item by blast
qed

lemma done_with_facts:
  "reading (done_with rs) =
     Some (JObj [(''ok'', JBool True), (''status'', JStr ''done''), (''records'', JArr rs)])"
  "is_done (JObj [(''ok'', JBool True), (''status'', JStr ''done''), (''records'', JArr rs)])"
  "records_of (JObj [(''ok'', JBool True), (''status'', JStr ''done''), (''records'', JArr rs)])
     = rs"
  by (simp_all add: done_with_def read_of_def reading_def json_or_null_def is_done_def
      records_of_def)

lemma example_batch_finished:
  "poll_loop (parseTimeoutMs test_env lofi_request) (parsePollIntervalMs test_env lofi_request)
     (clock (example_world st [done_with rs])) (clock (example_world st [done_with rs])) JNull
     (polls (example_world st [done_with rs])) =
   Some (Done (JObj [(''ok'', JBool True), (''status'', JStr ''done''), (''records'', JArr rs)]),
         1)"
proof -
  have "(0::rat) - 0 < 3000" by simp
  from poll_loop_done_step [OF done_with_facts(1,2) this]
  show ?thesis by (simp only: lofi_request_facts example_world_facts)
qed

lemma second_refused_answers: "\<forall>i<k. \<forall>c. \<exists>resp. second_refused i c = Response resp"
  by (simp add: second_refused_def)

lemma example_joined: "{..<3} \<subseteq> set [2, 0, 1 :: nat]"
  by auto


lemma track_facts:
  "jget (track u) ''audio_url'' = Some (JStr u)"
  "length three_tracks = 3" "length middle_track_missing = 3"
  "three_tracks ! 0 = track ''https://cdn.example/a.mp3''"
  "three_tracks ! 1 = track ''https://cdn.example/b.mp3''"
  "three_tracks ! 2 = track ''https://cdn.example/c.mp3''"
  "middle_track_missing ! 1 = JObj [(''duration'', JNum 130)]"
  "three_tracks ! Suc 0 = track ''https://cdn.example/b.mp3''"
  "middle_track_missing ! Suc 0 = JObj [(''duration'', JNum 130)]"
  by (simp_all add: track_def three_tracks_def middle_track_missing_def)

lemma second_refused_facts:
  "second_refused 0 c = Response (stored ''https://files.example/track.mp3'')"
  "second_refused 1 c = Response \<lparr>status = 500, content = None\<rparr>"
  "second_refused 2 c = Response (stored ''https://files.example/track.mp3'')"
  "ok (stored u)"
  "jget2 (json_or_null (stored u)) ''data'' ''downloadUrl'' = Some (JStr u)"
  by (simp_all add: second_refused_def stored_def ok_def jget2_def json_or_null_def)

theorem batch_upload_failures_per_item_witness:
  "\<exists>ups rep tr body.
     handler_wait_upload test_env
       (example_world (job_started abc_job) [done_with three_tracks]) lofi_request
       = Some (rep, tr) \<and>
     statusCode rep = 200 \<and> sent rep = Some body \<and>
     jget body ''kieUploads'' = Some (JArr ups) \<and> length ups = 3 \<and>
     jget (ups ! 0) ''ok'' = Some (JBool True) \<and>
     jget2 (ups ! 0) ''kie'' ''downloadUrl'' = Some (JStr ''https://files.example/track.mp3'') \<and>
     jget (ups ! 1) ''ok'' = Some (JBool False) \<and>
     jget (ups ! 1) ''recordIndex'' = Some (JNum 1) \<and>
     jget2 (ups ! 1) ''uploadError'' ''status'' = Some (JNum 500) \<and>
     jget (ups ! 2) ''ok'' = Some (JBool True) \<and>
     handler_wait_upload test_env
       ((example_world (job_started abc_job) [done_with three_tracks])
          \<lparr>completion := [0, 1, 2]\<rparr>) lofi_request
       = Some (rep, tr)"
proof -
  let ?w = "example_world (job_started abc_job) [done_with three_tracks]"
  have answered: "\<forall>i<length (records_of (JObj [(''ok'', JBool True), (''status'', JStr ''done''),
      (''records'', JArr three_tracks)])). \<forall>c. \<exists>resp. kie ?w i c = Response resp"
    unfolding example_world_facts by (rule second_refused_answers)
  have joined: "{..<length (records_of (JObj [(''ok'', JBool True), (''status'', JStr ''done''),
      (''records'', JArr three_tracks)]))} \<subseteq> set (completion ?w)"
    by (simp only: example_world_facts done_with_facts track_facts example_joined)
  from batch_upload_failures_per_item [OF lofi_request_facts(1,2) lofi_safeParse_upload
      test_env_keys example_world_facts(1) abc_job_facts(1) example_job_id abc_job_facts(4)
      example_batch_finished answered joined]
  obtain ups rep tr body where
    r: "handler_wait_upload test_env ?w lofi_request = Some (rep, tr)" "statusCode rep = 200"
      "sent rep = Some body" "jget body ''kieUploads'' = Some (JArr ups)"
    and len: "length ups = length three_tracks"
    and item: "\<And>i u resp. i < length three_tracks \<Longrightarrow>
        jget (three_tracks ! i) ''audio_url'' = Some (JStr u) \<Longrightarrow> u \<noteq> [] \<Longrightarrow>
        second_refused i (upload_call ''kie-key'' u (kieUploadPath lofi_prompt)
                   (Some (kie_file_name test_env lofi_prompt (JStr ''abc'') i))) = Response resp \<Longrightarrow>
        jget (ups ! i) ''recordIndex'' = Some (JNum (of_nat i)) \<and>
        (ok resp \<longrightarrow>
           jget (ups ! i) ''ok'' = Some (JBool True) \<and>
           jget (ups ! i) ''sourceAudioUrl'' = Some (JStr u) \<and>
           jget2 (ups ! i) ''kie'' ''downloadUrl'' =
             jget2 (json_or_null resp) ''data'' ''downloadUrl'') \<and>
        (\<not> ok resp \<longrightarrow>
           jget (ups ! i) ''ok'' = Some (JBool False) \<and>
           jget2 (ups ! i) ''uploadError'' ''status'' = Some (JNum (of_nat (status resp))) \<and>
           jget2 (ups ! i) ''uploadError'' ''upstream'' = Some (json_or_null resp))"
    and all: "\<And>order. {..<length three_tracks} \<subseteq> set order \<Longrightarrow>
        handler_wait_upload test_env (?w\<lparr>completion := order\<rparr>) lofi_request = Some (rep, tr)"
    unfolding done_with_facts example_world_facts by blast
  have i0: "jget (ups ! 0) ''ok'' = Some (JBool True) \<and>
     jget2 (ups ! 0) ''kie'' ''downloadUrl'' = Some (JStr ''https://files.example/track.mp3'')"
    using item [of 0 "''https://cdn.example/a.mp3''", OF _ _ _ second_refused_facts(1)]
    by (simp add: track_facts second_refused_facts)
  have i1: "jget (ups ! 1) ''ok'' = Some (JBool False) \<and>
     jget (ups ! 1) ''recordIndex'' = Some (JNum 1) \<and>
     jget2 (ups ! 1) ''uploadError'' ''status'' = Some (JNum 500)"
    using item [of 1 "''https://cdn.example/b.mp3''", OF _ _ _ second_refused_facts(2)]
    by (simp add: track_facts ok_def)
  have i2: "jget (ups ! 2) ''ok'' = Some (JBool True)"
    using item [of 2 "''https://cdn.example/c.mp3''", OF _ _ _ second_refused_facts(3)]
    by (simp add: track_facts second_refused_facts)
  have o: "handler_wait_upload test_env (?w\<lparr>completion := [0, 1, 2]\<rparr>) lofi_request
      = Some (rep, tr)"
    by (rule all) (auto simp: track_facts)
  show ?thesis
    using r len i0 i1 i2 o by (simp add: track_facts)
qed


lemma show_nat_digits: "show_nat 1 = ''1''" "show_nat 3 = ''3''" "show_nat (Suc 0) = ''1''"
  by code_simp+

lemma lofi_file_names:
  "kie_file_name test_env lofi_prompt (JStr ''abc'') 0 = ''abc-1.mp3''"
  "kie_file_name test_env lofi_prompt (JStr ''abc'') 2 = ''abc-3.mp3''"
  "kieUploadPath lofi_prompt = ''music/paxsenix''"
  by (simp_all add: kie_file_name_def lofi_prompt_def trim_def template_def show_nat_digits)

lemma middle_track_missing_calls:
  "concat (map (\<lambda>i.
       case jget (middle_track_missing ! i) ''audio_url'' of
         Some (JStr u) \<Rightarrow>
           if u = [] then []
           else [upload_call ''kie-key'' u (kieUploadPath lofi_prompt)
                   (Some (kie_file_name test_env lofi_prompt (JStr ''abc'') i))]
       | _ \<Rightarrow> []) [0..<length middle_track_missing]) =
   [upload_call ''kie-key'' ''https://cdn.example/a.mp3'' ''music/paxsenix'' (Some ''abc-1.mp3''),
    upload_call ''kie-key'' ''https://cdn.example/c.mp3'' ''music/paxsenix'' (Some ''abc-3.mp3'')]"
proof -
  have u: "[0..<length middle_track_missing] = [0, 1, 2]"
    by (simp add: track_facts upt_rec)
  have n: "middle_track_missing ! 0 = track ''https://cdn.example/a.mp3''"
    "middle_track_missing ! 2 = track ''https://cdn.example/c.mp3''"
    by (simp_all add: middle_track_missing_def)
  show ?thesis
    unfolding u by (simp add: n track_facts lofi_file_names)
qed

theorem missing_audio_url_entry_witness:
  "\<exists>ups rep tr body.
     handler_wait_upload test_env
       (example_world (job_started abc_job) [done_with middle_track_missing]) lofi_request
       = Some (rep, tr) \<and>
     statusCode rep = 200 \<and> sent rep = Some body \<and>
     jget body ''kieUploads'' = Some (JArr ups) \<and> length ups = 3 \<and>
     ups ! 1 = JObj [(''ok'', JBool False), (''message'', JStr ''missing audio_url''),
                     (''recordIndex'', JNum 1)] \<and>
     tr = [start_call ''pax-key'' (payloadToUpstream lofi_prompt),
           status_call test_env ''pax-key'' (JStr ''https://api.paxsenix.org/task/abc''),
           upload_call ''kie-key'' ''https://cdn.example/a.mp3'' ''music/paxsenix''
             (Some ''abc-1.mp3''),
           upload_call ''kie-key'' ''https://cdn.example/c.mp3'' ''music/paxsenix''
             (Some ''abc-3.mp3'')]"
proof -
  let ?w = "example_world (job_started abc_job) [done_with middle_track_missing]"
  have answered: "\<forall>i<length (records_of (JObj [(''ok'', JBool True), (''status'', JStr ''done''),
      (''records'', JArr middle_track_missing)])). \<forall>c. \<exists>resp. kie ?w i c = Response resp"
    unfolding example_world_facts by (rule second_refused_answers)
  have joined: "{..<length (records_of (JObj [(''ok'', JBool True), (''status'', JStr ''done''),
      (''records'', JArr middle_track_missing)]))} \<subseteq> set (completion ?w)"
    by (simp only: example_world_facts done_with_facts track_facts example_joined)
  from missing_audio_url_entry [OF lofi_request_facts(1,2) lofi_safeParse_upload
      test_env_keys example_world_facts(1) abc_job_facts(1) example_job_id abc_job_facts(4)
      example_batch_finished answered joined]
  obtain ups rep tr body where
    r: "handler_wait_upload test_env ?w lofi_request = Some (rep, tr)" "statusCode rep = 200"
      "sent rep = Some body" "jget body ''kieUploads'' = Some (JArr ups)"
    and len: "length ups = length middle_track_missing"
    and item: "\<And>i. i < length middle_track_missing \<Longrightarrow>
        (\<forall>u. jget (middle_track_missing ! i) ''audio_url'' = Some (JStr u) \<longrightarrow> u = []) \<Longrightarrow>
        ups ! i = JObj [(''ok'', JBool False), (''message'', JStr ''missing audio_url''),
                        (''recordIndex'', JNum (of_nat i))]"
    and tr: "tr = start_call ''pax-key'' (payloadToUpstream lofi_prompt) #
          replicate 1 (status_call test_env ''pax-key''
             (task_url_of test_env (json_or_null (job_started abc_job)) (JStr ''abc''))) @
          concat (map (\<lambda>i.
             case jget (middle_track_missing ! i) ''audio_url'' of
               Some (JStr u) \<Rightarrow>
                 if u = [] then []
                 else [upload_call ''kie-key'' u (kieUploadPath lofi_prompt)
                         (Some (kie_file_name test_env lofi_prompt (JStr ''abc'') i))]
             | _ \<Rightarrow> []) [0..<length middle_track_missing])"
    unfolding done_with_facts example_world_facts by blast
  have i1: "ups ! 1 = JObj [(''ok'', JBool False), (''message'', JStr ''missing audio_url''),
                     (''recordIndex'', JNum 1)]"
    using item [of 1] by (simp add: track_facts)
  have t: "tr = [start_call ''pax-key'' (payloadToUpstream lofi_prompt),
           status_call test_env ''pax-key'' (JStr ''https://api.paxsenix.org/task/abc''),
           upload_call ''kie-key'' ''https://cdn.example/a.mp3'' ''music/paxsenix''
             (Some ''abc-1.mp3''),
           upload_call ''kie-key'' ''https://cdn.example/c.mp3'' ''music/paxsenix''
             (Some ''abc-3.mp3'')]"
    unfolding tr middle_track_missing_calls by (simp add: abc_job_facts)
  show ?thesis
    using r len i1 t by (simp add: track_facts)
qed


section \<open>The callback receiver\<close>

lemma handler_callback_complete:
  assumes "http_method req = ''POST''" "readJsonBody req = Inr b" "callbackSchema e b = Inr p"
    "code p = Some 200" "callbackType_of p = Some ''complete''" "items_of p = first # rest"
    "audio_url first = Some audioUrl" "audioUrl \<noteq> []"
  shows "handler_callback e w req =
      (case kieUploadFromUrl_cb e (kie w 0) audioUrl ''music/cover-audio''
              (Some (cover_file_name p first)) of
         (Rejected m, cs) \<Rightarrow> (internal_error m, cs)
       | (Fulfilled up, cs) \<Rightarrow>
           if up_ok up then
             (acknowledged p
                (JObj ((''sourceAudioUrl'', JStr audioUrl) # stored_fields e (upstream up))), cs)
           else
             (acknowledged p
                (JObj [(''ok'', JBool False), (''uploadError'', cb_upload_json up)]), cs))"
  unfolding handler_callback_def using assms by (simp add: Let_def)

lemma handler_callback_idle:
  assumes "http_method req = ''POST''" "readJsonBody req = Inr b" "callbackSchema e b = Inr p"
    "\<not> (code p = Some 200 \<and> callbackType_of p = Some ''complete'' \<and>
         (\<exists>first rest audioUrl.
            items_of p = first # rest \<and> audio_url first = Some audioUrl \<and> audioUrl \<noteq> []))"
  shows "handler_callback e w req = (acknowledged p JNull, [])"
  unfolding handler_callback_def using assms
  by (cases "items_of p") (auto simp: Let_def split: option.splits)

lemma acknowledged_fields:
  "statusCode (acknowledged p u) = 200 \<and>
   (\<exists>body. sent (acknowledged p u) = Some body \<and>
      jget body ''ok'' = Some (JBool True) \<and>
      jget body ''received'' = Some (envelope_json p) \<and>
      jget body ''kieUploadedFirstTrack'' = Some u)"
  unfolding acknowledged_def json_def
  by (simp add: jget_normalizeAuthor del: normalizeAuthor.simps)

lemma kieUploadFromUrl_cb_answered:
  assumes "getKieApiKey e = Inr key" "srv (upload_call key u path f) = Response resp"
  shows "kieUploadFromUrl_cb e srv u path f =
     (Fulfilled \<lparr>up_ok = ok resp, up_status = status resp, upstream = json_or_null resp\<rparr>,
      [upload_call key u path f])"
  using assms unfolding kieUploadFromUrl_cb_def by (simp add: Let_def)

lemma kieUploadFromUrl_cb_calls:
  assumes "getKieApiKey e = Inr key"
  shows "snd (kieUploadFromUrl_cb e srv u path f) = [upload_call key u path f]"
  using assms unfolding kieUploadFromUrl_cb_def
  by (simp add: Let_def split: fetched.splits)

text \<open>
  C9, as the code has it. Take a callback whose body passed the callback schema, as
  the envelope \<open>p\<close>. When \<^verbatim>\<open>code\<close> is 200, \<^verbatim>\<open>callbackType\<close> is \<^verbatim>\<open>"complete"\<close>, the item
  list is not empty and its first item carries an \<^verbatim>\<open>audio_url\<close>, the receiver makes
  exactly one upload call (with the storage key configured): for that address, to the
  path \<^verbatim>\<open>music/cover-audio\<close>, under the file name
  \<^verbatim>\<open>{task_id ?? "task"}-{id ?? "track"}.mp3\<close>; when the call is answered with an HTTP
  response the receiver acknowledges with 200, reporting the stored file on a 2xx
  answer and \<^verbatim>\<open>{ok: false, uploadError}\<close> with the provider's status and body
  otherwise. Every other envelope, one whose first item has no \<^verbatim>\<open>audio_url\<close> included,
  triggers no upload call and is acknowledged with 200 and a \<^verbatim>\<open>null\<close>
  \<^verbatim>\<open>kieUploadedFirstTrack\<close>.
\<close>

theorem callback_uploads_first_track:
  fixes e :: "'a env_scheme" and w :: "'b world_scheme"
  assumes "http_method req = ''POST''" "readJsonBody req = Inr b" "callbackSchema e b = Inr p"
  shows
    "(\<forall>first rest audioUrl key.
        code p = Some 200 \<and> callbackType_of p = Some ''complete'' \<and> items_of p = first # rest \<and>
        audio_url first = Some audioUrl \<and> audioUrl \<noteq> [] \<and> getKieApiKey e = Inr key \<longrightarrow>
        snd (handler_callback e w req) =
          [upload_call key audioUrl ''music/cover-audio'' (Some (cover_file_name p first))] \<and>
        payload (upload_call key audioUrl ''music/cover-audio'' (Some (cover_file_name p first)))
          = Some (JObj [(''fileUrl'', JStr audioUrl), (''uploadPath'', JStr ''music/cover-audio''),
                        (''fileName'', JStr (cover_file_name p first))]) \<and>
        (\<forall>resp.
           kie w 0 (upload_call key audioUrl ''music/cover-audio''
                      (Some (cover_file_name p first))) = Response resp \<longrightarrow>
           fst (handler_callback e w req) =
             acknowledged p
               (if ok resp then
                  JObj ((''sourceAudioUrl'', JStr audioUrl) # stored_fields e (json_or_null resp))
                else
                  JObj [(''ok'', JBool False),
                        (''uploadError'',
                         JObj [(''ok'', JBool False), (''status'', JNum (of_nat (status resp))),
                               (''upstream'', json_or_null resp)])]))) \<and>
     (\<not> (code p = Some 200 \<and> callbackType_of p = Some ''complete'' \<and>
         (\<exists>first rest audioUrl.
            items_of p = first # rest \<and> audio_url first = Some audioUrl \<and> audioUrl \<noteq> [])) \<longrightarrow>
        handler_callback e w req = (acknowledged p JNull, [])) \<and>
     (\<forall>u. statusCode (acknowledged p u) = 200 \<and>
        (\<exists>body. sent (acknowledged p u) = Some body \<and>
           jget body ''ok'' = Some (JBool True) \<and>
           jget body ''received'' = Some (envelope_json p) \<and>
           jget body ''kieUploadedFirstTrack'' = Some u))"
proof (intro conjI allI impI; (elim conjE)?)
  fix first rest audioUrl key
  assume a: "code p = Some 200" "callbackType_of p = Some ''complete''"
    "items_of p = first # rest" "audio_url first = Some audioUrl" "audioUrl \<noteq> []"
    "getKieApiKey e = Inr key"
  let ?c = "upload_call key audioUrl ''music/cover-audio'' (Some (cover_file_name p first))"
  have h: "handler_callback e w req =
      (case kieUploadFromUrl_cb e (kie w 0) audioUrl ''music/cover-audio''
              (Some (cover_file_name p first)) of
         (Rejected m, cs) \<Rightarrow> (internal_error m, cs)
       | (Fulfilled up, cs) \<Rightarrow>
           if up_ok up then
             (acknowledged p
                (JObj ((''sourceAudioUrl'', JStr audioUrl) # stored_fields e (upstream up))), cs)
           else
             (acknowledged p
                (JObj [(''ok'', JBool False), (''uploadError'', cb_upload_json up)]), cs))"
    by (rule handler_callback_complete [OF assms a(1-5)])
  show "snd (handler_callback e w req) = [?c]"
    unfolding h using kieUploadFromUrl_cb_calls [OF a(6), of "kie w 0" audioUrl
        "''music/cover-audio''" "Some (cover_file_name p first)"]
    by (auto split: prod.splits settled.splits)
  show "payload ?c = Some (JObj [(''fileUrl'', JStr audioUrl),
      (''uploadPath'', JStr ''music/cover-audio''),
      (''fileName'', JStr (cover_file_name p first))])"
    by (simp add: upload_call_def cover_file_name_def)
  {
    fix resp assume r: "kie w 0 ?c = Response resp"
    show "fst (handler_callback e w req) =
             acknowledged p
               (if ok resp then
                  JObj ((''sourceAudioUrl'', JStr audioUrl) # stored_fields e (json_or_null resp))
                else
                  JObj [(''ok'', JBool False),
                        (''uploadError'',
                         JObj [(''ok'', JBool False), (''status'', JNum (of_nat (status resp))),
                               (''upstream'', json_or_null resp)])])"
      unfolding h kieUploadFromUrl_cb_answered [where srv = "kie w 0", OF a(6) r]
      by (simp add: cb_upload_json_def)
  }
next
  assume n: "\<not> (code p = Some 200 \<and> callbackType_of p = Some ''complete'' \<and>
         (\<exists>first rest audioUrl.
            items_of p = first # rest \<and> audio_url first = Some audioUrl \<and> audioUrl \<noteq> []))"
  show "handler_callback e w req = (acknowledged p JNull, [])"
    by (rule handler_callback_idle [OF assms n])
next
  fix u
  show "statusCode (acknowledged p u) = 200"
    using acknowledged_fields by blast
  show "\<exists>body. sent (acknowledged p u) = Some body \<and>
           jget body ''ok'' = Some (JBool True) \<and>
           jget body ''received'' = Some (envelope_json p) \<and>
           jget body ''kieUploadedFirstTrack'' = Some u"
    using acknowledged_fields by blast
qed


lemma callback_request_facts:
  "http_method (callback_request v) = ''POST''" "readJsonBody (callback_request v) = Inr v"
  by (simp_all add: callback_request_def readJsonBody_def)

lemma test_env_isUrl: "isUrl test_env = isUrl_https"
  by (simp add: test_env_def)

lemma cover_track_parsed:
  "z_item test_env (cover_track_json (Some ''https://x/a.mp3'')) =
     Some (cover_track (Some ''https://x/a.mp3''))"
  "z_item test_env (cover_track_json None) = Some (cover_track None)"
  by (simp_all add: z_item_def cover_track_json_def cover_track_def opt_field_def
      z_string_optional_def z_url_optional_def z_number_optional_def test_env_isUrl
      isUrl_https_def)

lemma callback_parsed:
  "z_item test_env v = Some i \<Longrightarrow>
   callbackSchema test_env (callback_body ct [v]) = Inr (callback_envelope ct [i])"
  by (simp add: callbackSchema_def callback_body_def callback_envelope_def z_callback_data_def
      z_items_def z_string_optional_def z_number_optional_def)

lemma callback_envelope_facts:
  "code (callback_envelope ct its) = Some 200"
  "callbackType_of (callback_envelope ct its) = Some ct"
  "items_of (callback_envelope ct its) = its"
  "audio_url (cover_track u) = u"
  "cover_file_name (callback_envelope ct its) (cover_track u) = ''task9-t1.mp3''"
  by (simp_all add: callback_envelope_def callbackType_of_def items_of_def cover_track_def
      cover_file_name_def)

lemma refusing_world_facts:
  "kie refusing_world i c = Response \<lparr>status = 500, content = None\<rparr>"
  "\<not> ok \<lparr>status = 500, content = None\<rparr>"
  "json_or_null \<lparr>status = 500, content = None\<rparr> = JNull"
  by (simp_all add: refusing_world_def ok_def json_or_null_def)

theorem callback_uploads_first_track_witness:
  "snd (handler_callback test_env refusing_world
          (callback_request
             (callback_body ''complete'' [cover_track_json (Some ''https://x/a.mp3'')]))) =
     [upload_call ''kie-key'' ''https://x/a.mp3'' ''music/cover-audio'' (Some ''task9-t1.mp3'')] \<and>
   fst (handler_callback test_env refusing_world
          (callback_request
             (callback_body ''complete'' [cover_track_json (Some ''https://x/a.mp3'')]))) =
     acknowledged (callback_envelope ''complete'' [cover_track (Some ''https://x/a.mp3'')])
       (JObj [(''ok'', JBool False),
              (''uploadError'',
               JObj [(''ok'', JBool False), (''status'', JNum 500), (''upstream'', JNull)])]) \<and>
   statusCode
     (acknowledged (callback_envelope ''complete'' [cover_track (Some ''https://x/a.mp3'')])
       (JObj [(''ok'', JBool False),
              (''uploadError'',
               JObj [(''ok'', JBool False), (''status'', JNum 500), (''upstream'', JNull)])]))
     = 200 \<and>
   handler_callback test_env refusing_world
     (callback_request (callback_body ''text'' [cover_track_json (Some ''https://x/a.mp3'')])) =
     (acknowledged (callback_envelope ''text'' [cover_track (Some ''https://x/a.mp3'')]) JNull,
      [])"
proof -
  note c = callback_uploads_first_track [OF callback_request_facts
      callback_parsed [OF cover_track_parsed(1), of "''complete''"], where w = refusing_world]
  note t = callback_uploads_first_track [OF callback_request_facts
      callback_parsed [OF cover_track_parsed(1), of "''text''"], where w = refusing_world]
  from c have 1: "snd (handler_callback test_env refusing_world
          (callback_request
             (callback_body ''complete'' [cover_track_json (Some ''https://x/a.mp3'')]))) =
     [upload_call ''kie-key'' ''https://x/a.mp3'' ''music/cover-audio'' (Some ''task9-t1.mp3'')]"
    by (simp add: callback_envelope_facts test_env_keys)
  from c have 2: "fst (handler_callback test_env refusing_world
          (callback_request
             (callback_body ''complete'' [cover_track_json (Some ''https://x/a.mp3'')]))) =
     acknowledged (callback_envelope ''complete'' [cover_track (Some ''https://x/a.mp3'')])
       (JObj [(''ok'', JBool False),
              (''uploadError'',
               JObj [(''ok'', JBool False), (''status'', JNum 500), (''upstream'', JNull)])])"
    by (simp add: callback_envelope_facts test_env_keys refusing_world_facts)
  from c have 3: "statusCode
     (acknowledged (callback_envelope ''complete'' [cover_track (Some ''https://x/a.mp3'')])
       (JObj [(''ok'', JBool False),
              (''uploadError'',
               JObj [(''ok'', JBool False), (''status'', JNum 500), (''upstream'', JNull)])]))
     = 200"
    by blast
  from t have 4: "handler_callback test_env refusing_world
     (callback_request (callback_body ''text'' [cover_track_json (Some ''https://x/a.mp3'')])) =
     (acknowledged (callback_envelope ''text'' [cover_track (Some ''https://x/a.mp3'')]) JNull,
      [])"
    by (simp add: callback_envelope_facts)
  show ?thesis using 1 2 3 4 by blast
qed

text \<open>A \<^verbatim>\<open>complete\<close> callback with code 200 whose only item has no \<^verbatim>\<open>audio_url\<close> is
  well-formed and triggers no upload call.\<close>

theorem first_track_without_audio_counterexample:
  "callbackSchema test_env (callback_body ''complete'' [cover_track_json None]) =
     Inr (callback_envelope ''complete'' [cover_track None]) \<and>
   code (callback_envelope ''complete'' [cover_track None]) = Some 200 \<and>
   callbackType_of (callback_envelope ''complete'' [cover_track None]) = Some ''complete'' \<and>
   items_of (callback_envelope ''complete'' [cover_track None]) \<noteq> [] \<and>
   snd (handler_callback test_env refusing_world
          (callback_request (callback_body ''complete'' [cover_track_json None]))) = []"
  using handler_callback_idle [OF callback_request_facts
      callback_parsed [OF cover_track_parsed(2), of "''complete''"], where w = refusing_world]
  by (simp add: callback_envelope_facts callback_parsed [OF cover_track_parsed(2)])


end
